theory Spec2Isabelle
  imports Complex_Main
begin

section \<open>Conventions of the embedding\<close>

text \<open>
  The decision pipeline of the repository (\<^verbatim>\<open>src/orchestrator.py\<close>, \<^verbatim>\<open>src/stability.py\<close>,
  \<^verbatim>\<open>src/early_stopping.py\<close>, \<^verbatim>\<open>src/rebuttal.py\<close>, \<^verbatim>\<open>src/consensus.py\<close>,
  \<^verbatim>\<open>src/solver_pool.py\<close>, \<^verbatim>\<open>src/schemas.py\<close>, \<^verbatim>\<open>src/model_memory.py\<close>) is embedded as
  HOL functions.

  \<^item> Python \<^verbatim>\<open>int\<close> is \<^typ>\<open>int\<close>. A Python \<^verbatim>\<open>float\<close> is the \<^typ>\<open>real\<close> it denotes. Where
    a branch or a result of the code depends on the rounding of an operation, the operation
    is rounded to the nearest double (\<open>fl\<close>, section ``Double-precision arithmetic''):
    the comparisons of \<^verbatim>\<open>run_single\<close> and \<open>wilson_ci_double\<close>. The statistics of
    \<^verbatim>\<open>stability.py\<close> and of the early stopper are computed in exact arithmetic
    (\<open>calculate\<close>, \<open>wilson_ci\<close>), without rounding of intermediate results.
  \<^item> Every exception the modelled code can raise is a value of \<open>error\<close>; a function that
    can raise returns \<open>error + 'a\<close> with \<open>Inl\<close> for the exception.
  \<^item> Remote model calls, the JSON parser and the wall clock are parameters of the model.
\<close>

datatype error =
    ZeroDivisionError
  | IndexError
  | ValueError
  | AttributeError
  | KeyError
  | TypeError
  | ProviderError

section \<open>Double-precision arithmetic\<close>

text \<open>
  Python's \<^verbatim>\<open>float\<close> is the IEEE 754 binary64 format, and \<^verbatim>\<open>+\<close>, \<^verbatim>\<open>-\<close>, \<^verbatim>\<open>*\<close>, \<^verbatim>\<open>/\<close>,
  \<^verbatim>\<open>math.sqrt\<close>, the conversion of an \<^verbatim>\<open>int\<close> and the reading of a decimal literal return
  the double nearest to the exact result, a tie going to the even significand.

  \<open>round_half_even x\<close> is the integer nearest to \<open>x\<close>, a tie going to the even one.
  \<open>fl x\<close> is the double nearest to \<open>x\<close>: the multiple of \<open>2 powi e\<close> nearest to \<open>x\<close>, where
  \<open>e\<close> is the exponent of \<open>x\<close> (the floor of its binary logarithm, at least -1022) minus 52;
  this gives 53 significant bits to a normal number and the spacing \<open>2 powi (-1074)\<close> to a
  subnormal one. Overflow to infinity and the sign of zero are not modelled.
\<close>

definition round_half_even :: "real \<Rightarrow> int" where
  "round_half_even x =
     (let f = \<lfloor>x\<rfloor>; d = x - of_int f
      in if d < 1 / 2 then f else if 1 / 2 < d then f + 1 else if even f then f else f + 1)"

definition fl :: "real \<Rightarrow> real" where
  "fl x =
     (if x = 0 then 0
      else let e = max \<lfloor>log 2 \<bar>x\<bar>\<rfloor> (- 1022) - 52
           in of_int (round_half_even (x / 2 powi e)) * 2 powi e)"

text \<open>The conversion \<^verbatim>\<open>float(n)\<close> of an \<^verbatim>\<open>int\<close>, and the four operations on doubles.\<close>

definition double_of_int :: "int \<Rightarrow> real" where
  "double_of_int n = fl (of_int n)"

definition fadd :: "real \<Rightarrow> real \<Rightarrow> real" where
  "fadd x y = fl (x + y)"

definition fsub :: "real \<Rightarrow> real \<Rightarrow> real" where
  "fsub x y = fl (x - y)"

definition fmul :: "real \<Rightarrow> real \<Rightarrow> real" where
  "fmul x y = fl (x * y)"

definition fdiv :: "real \<Rightarrow> real \<Rightarrow> real" where
  "fdiv x y = fl (x / y)"

section \<open>Wilson score interval (\<^verbatim>\<open>src/stability.py\<close>, class \<^verbatim>\<open>WilsonCI\<close>)\<close>

text \<open>\<^verbatim>\<open>math.sqrt\<close> raises \<^verbatim>\<open>ValueError\<close> on a negative argument.\<close>

definition math_sqrt :: "real \<Rightarrow> error + real" where
  "math_sqrt x = (if x < 0 then Inl ValueError else Inr (sqrt x))"

text \<open>
  \<^verbatim>\<open>WilsonCI.calculate(successes, trials, confidence=0.95)\<close>. The parameter
  \<^verbatim>\<open>confidence\<close> is never read by the body, so it is not a parameter of the model.
  For an integer \<^verbatim>\<open>trials\<close> the denominator \<open>1 + z\<^sup>2 / trials\<close> is never zero, so
  the only exception is the one of \<^verbatim>\<open>math.sqrt\<close>.
\<close>

definition calculate :: "int \<Rightarrow> int \<Rightarrow> error + real \<times> real" where
  "calculate successes trials =
     (if trials = 0 then Inr (0, 0)
      else
        let z = (196 / 100 :: real);
            p_hat = real_of_int successes / real_of_int trials;
            denominator = 1 + z ^ 2 / real_of_int trials;
            centre_adjusted = (p_hat + z ^ 2 / (2 * real_of_int trials)) / denominator
        in case math_sqrt ((p_hat * (1 - p_hat) + z ^ 2 / (4 * real_of_int trials))
                             / real_of_int trials) of
             Inl e \<Rightarrow> Inl e
           | Inr sq \<Rightarrow>
               let adjusted_sd = sq / denominator;
                   lower = max 0 (centre_adjusted - z * adjusted_sd);
                   upper = min 1 (centre_adjusted + z * adjusted_sd)
               in Inr (lower, upper))"

section \<open>Frequency counting (\<^verbatim>\<open>collections.Counter\<close>)\<close>

text \<open>
  A \<^verbatim>\<open>Counter\<close> built from a list is a dictionary from the distinct elements, in the
  order of their first occurrence, to their number of occurrences.
\<close>

fun counter_add :: "'a \<Rightarrow> ('a \<times> nat) list \<Rightarrow> ('a \<times> nat) list" where
  "counter_add x [] = [(x, 1)]"
| "counter_add x ((k, c) # rest) =
     (if k = x then (k, c + 1) # rest else (k, c) # counter_add x rest)"

definition Counter :: "'a list \<Rightarrow> ('a \<times> nat) list" where
  "Counter xs = foldl (\<lambda>acc x. counter_add x acc) [] xs"

text \<open>
  \<^verbatim>\<open>most_common(1)\<close> is \<^verbatim>\<open>max(items, key=count)\<close>: the first item, in dictionary order,
  whose count is maximal; the empty list for an empty counter.
\<close>

fun most_common1 :: "('a \<times> nat) list \<Rightarrow> ('a \<times> nat) option" where
  "most_common1 [] = None"
| "most_common1 (kc # rest) =
     (case most_common1 rest of
        None \<Rightarrow> Some kc
      | Some m \<Rightarrow> if snd kc < snd m then Some m else Some kc)"

section \<open>Stability analysis (\<^verbatim>\<open>src/stability.py\<close>, class \<^verbatim>\<open>StabilityAnalyzer\<close>)\<close>

text \<open>One entry of \<^verbatim>\<open>results_per_run\<close>, as \<^verbatim>\<open>run_multi\<close> builds it.\<close>

record run_outcome =
  decision_mode :: string
  used_candidates :: "string list"
  final_answer :: string

text \<open>
  The dictionary returned by \<^verbatim>\<open>analyze\<close>. The key \<^verbatim>\<open>total_runs\<close> is absent from the
  dictionary returned for an empty list of runs.
\<close>

record stability =
  majority_rate :: real
  ci_lower :: real
  ci_upper :: real
  majority_mode :: "string option"
  mode_distribution :: "(string \<times> nat) list"
  total_runs :: "nat option"

text \<open>
  \<^verbatim>\<open>round(x, ndigits)\<close>: the nearest multiple of \<open>10\<^sup>-\<^sup>n\<close>, an exact tie going to the even
  neighbour.
\<close>

definition py_round :: "real \<Rightarrow> nat \<Rightarrow> real" where
  "py_round x ndigits =
     (let y = x * 10 ^ ndigits;
          f = \<lfloor>y\<rfloor>;
          d = y - of_int f
      in (if d < 1 / 2 then of_int f
          else if 1 / 2 < d then of_int f + 1
          else if even f then of_int f
          else of_int f + 1) / 10 ^ ndigits)"

definition analyze :: "run_outcome list \<Rightarrow> error + stability" where
  "analyze results_per_run =
     (if results_per_run = [] then
        Inr \<lparr>majority_rate = 0, ci_lower = 0, ci_upper = 0, majority_mode = None,
             mode_distribution = [], total_runs = None\<rparr>
      else
        let modes = map decision_mode results_per_run;
            mode_counter = Counter modes
        in case most_common1 mode_counter of
             None \<Rightarrow> Inl IndexError
           | Some (majority_mode', majority_count) \<Rightarrow>
               let majority_rate' = real majority_count / real (length results_per_run)
               in case calculate (int majority_count) (int (length results_per_run)) of
                    Inl e \<Rightarrow> Inl e
                  | Inr (ci_lower', ci_upper') \<Rightarrow>
                      Inr \<lparr>majority_rate = py_round majority_rate' 3,
                           ci_lower = py_round ci_lower' 3,
                           ci_upper = py_round ci_upper' 3,
                           majority_mode = Some majority_mode',
                           mode_distribution = mode_counter,
                           total_runs = Some (length results_per_run)\<rparr>)"

section \<open>Early stopping (\<^verbatim>\<open>src/early_stopping.py\<close>)\<close>

subsection \<open>Data\<close>

text \<open>
  The \<^verbatim>\<open>reason\<close> of a decision is an f-string in the source. The model keeps which message
  it is and the values formatted into it, not the formatted text.
\<close>

datatype reason =
    Continuing_runs
  | Minimum_runs_not_reached int int
  | High_confidence_achieved real real
  | Stable_convergence real int
  | Adaptive_stop real int
  | Maximum_runs_reached int

record StoppingDecision =
  should_stop :: bool
  reason :: reason
  current_run :: int
  total_planned_runs :: int
  convergence_score :: real
  confidence_interval :: "real \<times> real"
  dominant_answer :: "string option"
  dominant_count :: int
  saved_runs :: int

record EarlyStoppingConfig =
  min_runs :: int
  confidence_threshold :: real
  convergence_threshold :: real
  stability_window :: int
  enable_adaptive :: bool

text \<open>\<^verbatim>\<open>EarlyStoppingConfig()\<close>: the defaults of the dataclass.\<close>

definition EarlyStoppingConfig_default :: EarlyStoppingConfig where
  "EarlyStoppingConfig_default =
     \<lparr>min_runs = 3, confidence_threshold = 85 / 100, convergence_threshold = 8 / 10,
      stability_window = 2, enable_adaptive = True\<rparr>"

record EarlyStopper =
  config :: EarlyStoppingConfig
  run_history :: "string list"
  stability_streak :: int
  last_dominant :: "string option"

text \<open>\<^verbatim>\<open>EarlyStopper.__init__\<close>: \<^verbatim>\<open>config or EarlyStoppingConfig()\<close>.\<close>

definition EarlyStopper_init :: "EarlyStoppingConfig option \<Rightarrow> EarlyStopper" where
  "EarlyStopper_init cfg =
     \<lparr>config = (case cfg of None \<Rightarrow> EarlyStoppingConfig_default | Some c \<Rightarrow> c),
      run_history = [], stability_streak = 0, last_dominant = None\<rparr>"


subsection \<open>\<^verbatim>\<open>EarlyStopper._wilson_ci\<close>\<close>

definition wilson_ci :: "int \<Rightarrow> int \<Rightarrow> real \<Rightarrow> error + real \<times> real" where
  "wilson_ci successes total' confidence =
     (if total' = 0 then Inr (0, 0)
      else
        let z = (if confidence = 95 / 100 then 196 / 100 else 1645 / 1000 :: real);
            p = real_of_int successes / real_of_int total';
            denominator = 1 + z * z / real_of_int total';
            center = p + z * z / (2 * real_of_int total')
        in case math_sqrt ((p * (1 - p) + z * z / (4 * real_of_int total'))
                             / real_of_int total') of
             Inl e \<Rightarrow> Inl e
           | Inr sq \<Rightarrow>
               let spread = z * sq;
                   lower = (center - spread) / denominator;
                   upper = (center + spread) / denominator
               in Inr (max 0 lower, min 1 upper))"

text \<open>
  The same method with every operation rounded as Python rounds it. \<^verbatim>\<open>1.96\<close>, \<^verbatim>\<open>1.645\<close>
  and the default \<^verbatim>\<open>0.95\<close> of \<^verbatim>\<open>confidence\<close> are the doubles nearest to these decimals;
  \<^verbatim>\<open>successes / total\<close> is the true division of two \<^verbatim>\<open>int\<close>s, which is correctly rounded;
  in \<^verbatim>\<open>z * z / total\<close>, \<^verbatim>\<open>z * z / (2 * total)\<close> and \<^verbatim>\<open>z * z / (4 * total)\<close> the divisor is an
  \<^verbatim>\<open>int\<close>, converted before the division, and in \<^verbatim>\<open>1 - p\<close> the \<^verbatim>\<open>1\<close> is converted exactly.
\<close>

definition math_sqrt_double :: "real \<Rightarrow> error + real" where
  "math_sqrt_double x = (if x < 0 then Inl ValueError else Inr (fl (sqrt x)))"

definition wilson_ci_double :: "int \<Rightarrow> int \<Rightarrow> real \<Rightarrow> error + real \<times> real" where
  "wilson_ci_double successes total' confidence =
     (if total' = 0 then Inr (0, 0)
      else
        let z = (if confidence = fl (95 / 100) then fl (196 / 100) else fl (1645 / 1000));
            p = fl (real_of_int successes / real_of_int total');
            denominator = fadd 1 (fdiv (fmul z z) (double_of_int total'));
            center = fadd p (fdiv (fmul z z) (double_of_int (2 * total')))
        in case math_sqrt_double
                  (fdiv (fadd (fmul p (fsub 1 p))
                           (fdiv (fmul z z) (double_of_int (4 * total'))))
                     (double_of_int total')) of
             Inl e \<Rightarrow> Inl e
           | Inr sq \<Rightarrow>
               let spread = fmul z sq;
                   lower = fdiv (fsub center spread) denominator;
                   upper = fdiv (fadd center spread) denominator
               in Inr (max 0 lower, min 1 upper))"

subsection \<open>\<^verbatim>\<open>EarlyStopper._get_answer_signature\<close>\<close>

text \<open>
  Strings are lists of 8-bit characters; \<^verbatim>\<open>str.lower\<close> and \<^verbatim>\<open>str.strip\<close> are modelled on
  ASCII: the letters \<^verbatim>\<open>A\<close> to \<^verbatim>\<open>Z\<close> are lowered, and the white space stripped is the
  ASCII white space of \<^verbatim>\<open>str.isspace\<close>.
\<close>

definition py_lower_char :: "char \<Rightarrow> char" where
  "py_lower_char c =
     (if 65 \<le> (of_char c :: nat) \<and> (of_char c :: nat) \<le> 90
      then char_of (of_char c + 32 :: nat) else c)"

definition py_isspace :: "char \<Rightarrow> bool" where
  "py_isspace c =
     (let n = (of_char c :: nat) in (9 \<le> n \<and> n \<le> 13) \<or> (28 \<le> n \<and> n \<le> 32))"

definition py_strip :: "string \<Rightarrow> string" where
  "py_strip s = rev (dropWhile py_isspace (rev (dropWhile py_isspace s)))"

definition get_answer_signature :: "string \<Rightarrow> string" where
  "get_answer_signature answer =
     (if answer = [] then [] else py_strip (map py_lower_char (take 200 answer)))"

subsection \<open>\<^verbatim>\<open>EarlyStopper.record_run\<close>\<close>

text \<open>
  The stopping conditions, in the order of the \<^verbatim>\<open>if\<close>/\<^verbatim>\<open>elif\<close> chain of the source; the
  result is the pair \<^verbatim>\<open>(should_stop, reason)\<close>.
\<close>

definition stopping_conditions ::
  "EarlyStoppingConfig \<Rightarrow> int \<Rightarrow> real \<Rightarrow> real \<Rightarrow> int \<Rightarrow> bool \<times> reason" where
  "stopping_conditions cfg current_run' ci_lower' convergence streak =
     (if current_run' < min_runs cfg then
        (False, Minimum_runs_not_reached current_run' (min_runs cfg))
      else if confidence_threshold cfg \<le> ci_lower' then
        (True, High_confidence_achieved ci_lower' (confidence_threshold cfg))
      else if convergence_threshold cfg \<le> convergence \<and> stability_window cfg \<le> streak then
        (True, Stable_convergence convergence streak)
      else if enable_adaptive cfg \<and> 5 \<le> current_run' then
        (if 8 / 10 \<le> convergence then (True, Adaptive_stop convergence current_run')
         else (False, Continuing_runs))
      else (False, Continuing_runs))"

text \<open>
  \<^verbatim>\<open>record_run\<close> mutates the stopper; the model returns the decision and the new stopper.
\<close>

definition record_run :: "EarlyStopper \<Rightarrow> string \<Rightarrow> error + StoppingDecision \<times> EarlyStopper" where
  "record_run self answer =
     (let signature = get_answer_signature answer;
          history = run_history self @ [signature];
          current_run' = int (length history);
          counter = Counter history
      in case most_common1 counter of
           None \<Rightarrow> Inl IndexError
         | Some (dominant_answer', dominant_count') \<Rightarrow>
             let convergence = real dominant_count' / real_of_int current_run'
             in case wilson_ci (int dominant_count') current_run' (95 / 100) of
                  Inl e \<Rightarrow> Inl e
                | Inr (ci_lower', ci_upper') \<Rightarrow>
                    let streak = (if Some dominant_answer' = last_dominant self
                                  then stability_streak self + 1 else 1);
                        verdict = stopping_conditions (config self) current_run' ci_lower'
                                    convergence streak
                    in Inr (\<lparr>should_stop = fst verdict,
                              reason = snd verdict,
                              current_run = current_run',
                              total_planned_runs = 0,
                              convergence_score = convergence,
                              confidence_interval = (ci_lower', ci_upper'),
                              dominant_answer = Some dominant_answer',
                              dominant_count = int dominant_count',
                              saved_runs = 0\<rparr>,
                            self\<lparr>run_history := history,
                                 stability_streak := streak,
                                 last_dominant := Some dominant_answer'\<rparr>))"

subsection \<open>\<^verbatim>\<open>AdaptiveRunManager\<close>\<close>

record AdaptiveRunManager =
  max_runs :: int
  min_runs :: int
  target_confidence :: real
  stopper :: EarlyStopper

text \<open>
  \<^verbatim>\<open>AdaptiveRunManager.__init__(max_runs=10, min_runs=3, target_confidence=0.85)\<close>; the
  fields of the configuration it does not pass keep their defaults.
\<close>

definition AdaptiveRunManager_init :: "int \<Rightarrow> int \<Rightarrow> real \<Rightarrow> AdaptiveRunManager" where
  "AdaptiveRunManager_init max_runs' min_runs' target_confidence' =
     \<lparr>max_runs = max_runs', min_runs = min_runs', target_confidence = target_confidence',
      stopper = EarlyStopper_init (Some (EarlyStoppingConfig_default
                  \<lparr>EarlyStoppingConfig.min_runs := min_runs',
                   confidence_threshold := target_confidence',
                   enable_adaptive := True\<rparr>))\<rparr>"


text \<open>
  \<^verbatim>\<open>should_continue(answer, planned_total)\<close> returns \<^verbatim>\<open>(should_continue, decision)\<close>; the
  model returns the manager with the stopper updated as third component.
\<close>

definition should_continue ::
  "AdaptiveRunManager \<Rightarrow> string \<Rightarrow> int
     \<Rightarrow> error + bool \<times> StoppingDecision \<times> AdaptiveRunManager" where
  "should_continue self answer planned_total =
     (case record_run (stopper self) answer of
        Inl e \<Rightarrow> Inl e
      | Inr (decision0, stopper') \<Rightarrow>
          let decision = decision0\<lparr>total_planned_runs := planned_total\<rparr>;
              self' = self\<lparr>stopper := stopper'\<rparr>;
              current = current_run decision
          in if current < min_runs self then Inr (True, decision, self')
             else if max_runs self \<le> current then
               Inr (False,
                    decision\<lparr>should_stop := True,
                             reason := Maximum_runs_reached (max_runs self)\<rparr>,
                    self')
             else if should_stop decision then
               Inr (False, decision\<lparr>saved_runs := planned_total - current\<rparr>, self')
             else Inr (True, decision, self'))"

section \<open>JSON values and the solver schema (\<^verbatim>\<open>src/schemas.py\<close>)\<close>

text \<open>
  A parsed JSON value, as \<^verbatim>\<open>json.loads\<close> returns it. An object is a Python dictionary: an
  association list in insertion order, with distinct keys. Numbers are reals.
\<close>

datatype json =
    JNull
  | JBool bool
  | JNumber real
  | JString string
  | JArray "json list"
  | JObject "(string \<times> json) list"

text \<open>
  The schemas a property of \<^verbatim>\<open>SOLVER_SCHEMA\<close> can have: \<^verbatim>\<open>{"type": "string"}\<close>,
  \<^verbatim>\<open>{"type": "number", "minimum": a, "maximum": b}\<close> and
  \<^verbatim>\<open>{"type": "array", "items": {"type": "string"}}\<close>.
\<close>

datatype property_schema =
    String_schema
  | Number_schema real real
  | String_array_schema

record object_schema =
  required :: "string list"
  additionalProperties :: bool
  properties :: "(string \<times> property_schema) list"

definition SOLVER_SCHEMA :: object_schema where
  "SOLVER_SCHEMA =
     \<lparr>required = [''model_id'', ''task_id'', ''final_answer'', ''confidence'',
                  ''assumptions'', ''risks'', ''evidence'', ''self_checks''],
      additionalProperties = False,
      properties =
        [(''model_id'', String_schema),
         (''task_id'', String_schema),
         (''final_answer'', String_schema),
         (''confidence'', Number_schema 0 1),
         (''assumptions'', String_array_schema),
         (''risks'', String_array_schema),
         (''evidence'', String_array_schema),
         (''self_checks'', String_array_schema)]\<rparr>"

text \<open>
  \<^verbatim>\<open>jsonschema.validate\<close>, for the keywords the schema uses. In JSON Schema a Boolean is
  not a number.
\<close>

definition is_string :: "json \<Rightarrow> bool" where
  "is_string v = (case v of JString s \<Rightarrow> True | _ \<Rightarrow> False)"

fun valid_property :: "property_schema \<Rightarrow> json \<Rightarrow> bool" where
  "valid_property String_schema v = is_string v"
| "valid_property (Number_schema lo hi) v =
     (case v of JNumber x \<Rightarrow> lo \<le> x \<and> x \<le> hi | _ \<Rightarrow> False)"
| "valid_property String_array_schema v =
     (case v of JArray xs \<Rightarrow> list_all is_string xs | _ \<Rightarrow> False)"

definition validate :: "json \<Rightarrow> object_schema \<Rightarrow> bool" where
  "validate instance schema =
     (case instance of
        JObject kvs \<Rightarrow>
          list_all (\<lambda>k. k \<in> set (map fst kvs)) (required schema)
          \<and> (additionalProperties schema
               \<or> list_all (\<lambda>k. k \<in> set (map fst (properties schema))) (map fst kvs))
          \<and> list_all (\<lambda>(k, v). case map_of (properties schema) k of
                                  None \<Rightarrow> True
                                | Some s \<Rightarrow> valid_property s v) kvs
      | _ \<Rightarrow> False)"

text \<open>\<^verbatim>\<open>validate_solver_json\<close> turns the \<^verbatim>\<open>ValidationError\<close> into a \<^verbatim>\<open>ValueError\<close>.\<close>

definition validate_solver_json :: "json \<Rightarrow> error + unit" where
  "validate_solver_json obj = (if validate obj SOLVER_SCHEMA then Inr () else Inl ValueError)"

section \<open>Candidates (\<^verbatim>\<open>src/models.py\<close>)\<close>

record SolverOutput =
  model_id :: string
  task_id :: string
  final_answer :: string
  confidence :: real
  assumptions :: "string list"
  risks :: "string list"
  evidence :: "string list"
  self_checks :: "string list"
  latency_ms :: int
  timestamp :: string

text \<open>
  The construction \<^verbatim>\<open>SolverOutput(model_id=..., task_id=..., final_answer=parsed["final_answer"],
  confidence=float(parsed["confidence"]), assumptions=list(parsed["assumptions"]), ...)\<close> that
  \<^verbatim>\<open>call_solver\<close> and \<^verbatim>\<open>RebuttalRound.run\<close> share. Both call it only after validation,
  which leaves no key missing and no value of the wrong kind; the two error branches
  stand for those cases and are never taken then. The time stamp is the wall clock at
  construction, a parameter.
\<close>

definition strings_of :: "json list \<Rightarrow> string list" where
  "strings_of xs = map (\<lambda>v. case v of JString s \<Rightarrow> s | _ \<Rightarrow> []) xs"

definition make_solver_output ::
  "string \<Rightarrow> string \<Rightarrow> int \<Rightarrow> string \<Rightarrow> json \<Rightarrow> error + SolverOutput" where
  "make_solver_output model_id' task_id' latency_ms' now parsed =
     (case parsed of
        JObject kvs \<Rightarrow>
          (case (map_of kvs ''final_answer'', map_of kvs ''confidence'',
                 map_of kvs ''assumptions'', map_of kvs ''risks'',
                 map_of kvs ''evidence'', map_of kvs ''self_checks'') of
             (Some (JString fa), Some (JNumber c), Some (JArray a), Some (JArray r),
              Some (JArray e), Some (JArray s)) \<Rightarrow>
               Inr \<lparr>model_id = model_id', task_id = task_id', final_answer = fa,
                    confidence = c, assumptions = strings_of a, risks = strings_of r,
                    evidence = strings_of e, self_checks = strings_of s,
                    latency_ms = latency_ms', timestamp = now\<rparr>
           | _ \<Rightarrow> Inl KeyError)
      | _ \<Rightarrow> Inl TypeError)"

section \<open>Rebuttal round (\<^verbatim>\<open>src/rebuttal.py\<close>)\<close>

text \<open>
  \<^verbatim>\<open>RebuttalRound.run(problem, task_id, all_outputs)\<close>. The remote call and the parsing of
  its reply (\<^verbatim>\<open>provider.generate\<close>, then \<^verbatim>\<open>safe_parse_json\<close>) are the parameter \<open>reply\<close>:
  given the position of the worker in the loop, the other workers' outputs and its own
  output, it returns the parsed reply or the exception raised. Every exception of the
  \<^verbatim>\<open>try\<close> block is caught, and the worker's own output is appended instead.
\<close>

definition RebuttalRound_run ::
  "(nat \<Rightarrow> SolverOutput list \<Rightarrow> SolverOutput \<Rightarrow> error + json) \<Rightarrow> string \<Rightarrow> string
     \<Rightarrow> SolverOutput list \<Rightarrow> SolverOutput list" where
  "RebuttalRound_run reply now task_id' all_outputs =
     map (\<lambda>(i, own_output).
            let other_outputs = filter (\<lambda>other. model_id other \<noteq> model_id own_output) all_outputs
            in case reply i other_outputs own_output of
                 Inl e \<Rightarrow> own_output
               | Inr parsed \<Rightarrow>
                   (case validate_solver_json parsed of
                      Inl e \<Rightarrow> own_output
                    | Inr u \<Rightarrow>
                        (case make_solver_output (model_id own_output) task_id'
                                (latency_ms own_output) now parsed of
                           Inl e \<Rightarrow> own_output
                         | Inr improved \<Rightarrow> improved)))
         (enumerate 0 all_outputs)"

section \<open>Arbiter output and run records (\<^verbatim>\<open>src/models.py\<close>)\<close>

record ArbiterRanking =
  model_id :: string
  score :: real

record ArbiterOutput =
  task_id :: string
  selected_model_id :: string
  ranking :: "ArbiterRanking list"
  final_answer :: string
  arbiter_notes :: "string list"
  decision_mode :: string
  used_candidates :: "string list"
  timestamp :: string

record RunRecord =
  pool :: string
  iter_index :: int
  round_number :: int
  solver_model_id :: string
  latency_ms :: int
  confidence :: real
  arbiter_score :: "real option"
  decision_mode :: string
  used_candidates :: string
  final_answer :: string
  "notes" :: string
  timestamp :: string

section \<open>The collaborators of a run\<close>

record SolverSpec =
  model_id :: string
  temperature :: real

text \<open>
  What one run receives from outside the modelled code. Remote models are not
  deterministic, so the replies are indexed by what distinguishes the calls of one run.
  \<^item> \<open>solver_reply\<close>: in \<^verbatim>\<open>call_solver\<close>, \<^verbatim>\<open>provider.generate\<close> followed by
    \<^verbatim>\<open>safe_parse_json\<close>: the parsed reply of a worker, or the exception raised.
  \<^item> \<open>solver_latency\<close>: the latency \<^verbatim>\<open>call_solver\<close> measures.
  \<^item> \<open>rebuttal_reply\<close>: the same two steps in \<^verbatim>\<open>RebuttalRound.run\<close>.
  \<^item> \<open>arbiter_rank\<close>: \<^verbatim>\<open>Arbiter.rank\<close> on its first or second call of the run: the
    arbiter output, or the exception it raises.
  \<^item> \<open>consensus_reply\<close>: in \<^verbatim>\<open>ConsensusSynthesizer.synthesize\<close>, the remote call and
    the parsing, given the candidates sent and \<^verbatim>\<open>topk\<close>: the value of the key
    \<^verbatim>\<open>final_answer\<close> of the parsed object (a string) if the key is present, or the
    exception raised.
  \<^item> \<open>utcnow\<close>: the wall clock, as an ISO string.
\<close>

record collaborators =
  solver_reply :: "SolverSpec \<Rightarrow> error + json"
  solver_latency :: "SolverSpec \<Rightarrow> int"
  rebuttal_reply :: "nat \<Rightarrow> SolverOutput list \<Rightarrow> SolverOutput \<Rightarrow> error + json"
  arbiter_rank :: "nat \<Rightarrow> SolverOutput list \<Rightarrow> error + ArbiterOutput"
  consensus_reply :: "SolverOutput list \<Rightarrow> int \<Rightarrow> error + string option"
  utcnow :: string

section \<open>Solver pool (\<^verbatim>\<open>src/solver_pool.py\<close>)\<close>

text \<open>The inner function \<^verbatim>\<open>call_solver\<close>: it logs and re-raises every exception.\<close>

definition call_solver :: "collaborators \<Rightarrow> string \<Rightarrow> SolverSpec \<Rightarrow> error + SolverOutput" where
  "call_solver w task_id' spec =
     (case solver_reply w spec of
        Inl e \<Rightarrow> Inl e
      | Inr parsed \<Rightarrow>
          (case validate_solver_json parsed of
             Inl e \<Rightarrow> Inl e
           | Inr u \<Rightarrow>
               make_solver_output (SolverSpec.model_id spec) task_id' (solver_latency w spec)
                 (utcnow w) parsed))"

text \<open>
  \<^verbatim>\<open>SolverPool.run_parallel\<close>: the results of the calls that did not raise; a call that
  raises is logged and dropped. \<^verbatim>\<open>ThreadPoolExecutor(max_workers=0)\<close> raises
  \<^verbatim>\<open>ValueError\<close>, which is the case of an empty roster. The source collects the results in
  completion order; the model collects them in roster order.
\<close>

definition SolverPool_run_parallel ::
  "collaborators \<Rightarrow> string \<Rightarrow> SolverSpec list \<Rightarrow> error + SolverOutput list" where
  "SolverPool_run_parallel w task_id' solvers' =
     (if solvers' = [] then Inl ValueError
      else Inr (List.map_filter
                  (\<lambda>spec. case call_solver w task_id' spec of
                             Inl e \<Rightarrow> None
                           | Inr result \<Rightarrow> Some result)
                  solvers'))"

section \<open>Consensus synthesis (\<^verbatim>\<open>src/consensus.py\<close>)\<close>

text \<open>The slice \<^verbatim>\<open>xs[:k]\<close>; a negative \<open>k\<close> counts from the end.\<close>

definition py_take :: "int \<Rightarrow> 'a list \<Rightarrow> 'a list" where
  "py_take k xs = (if 0 \<le> k then take (nat k) xs else take (nat (int (length xs) + k)) xs)"

text \<open>
  The dictionary \<^verbatim>\<open>synthesize\<close> returns. Its key \<^verbatim>\<open>synthesis_notes\<close> is never read by the
  orchestrator and is left out.
\<close>

record consensus_result =
  final_answer :: string
  sources :: "string list"

text \<open>
  \<^verbatim>\<open>ConsensusSynthesizer.synthesize(problem, task_id, top_candidates, topk)\<close>: every
  exception of the call and the parsing is logged and raised again.
\<close>

definition ConsensusSynthesizer_synthesize ::
  "collaborators \<Rightarrow> SolverOutput list \<Rightarrow> int \<Rightarrow> error + consensus_result" where
  "ConsensusSynthesizer_synthesize w top_candidates topk =
     (case consensus_reply w (py_take topk top_candidates) topk of
        Inl e \<Rightarrow> Inl e
      | Inr answer \<Rightarrow>
          Inr \<lparr>final_answer = (case answer of None \<Rightarrow> [] | Some s \<Rightarrow> s),
               sources = map SolverOutput.model_id (py_take topk top_candidates)\<rparr>)"

section \<open>Reliability memory (\<^verbatim>\<open>src/model_memory.py\<close>)\<close>

text \<open>
  \<^verbatim>\<open>ModelMemory.state\<close> maps a model to its \<^verbatim>\<open>n\<close> and \<^verbatim>\<open>reliability\<close>.
  \<^verbatim>\<open>update_reliability(model_id, reward, lr=0.05)\<close>.
\<close>

definition update_reliability ::
  "(string \<rightharpoonup> int \<times> real) \<Rightarrow> string \<Rightarrow> real \<Rightarrow> real \<Rightarrow> (string \<rightharpoonup> int \<times> real)" where
  "update_reliability state model_id' reward lr =
     (let s = (case state model_id' of None \<Rightarrow> (0, 1 / 2) | Some s \<Rightarrow> s)
      in state(model_id' \<mapsto> (fst s + 1, (1 - lr) * snd s + lr * reward)))"

section \<open>Orchestrator (\<^verbatim>\<open>src/orchestrator.py\<close>)\<close>

subsection \<open>State and results\<close>

text \<open>The components \<^verbatim>\<open>run_single\<close> invokes, for the log of invocations.\<close>

datatype call =
    Pool_run_parallel
  | Arbiter_rank
  | Rebuttal_run
  | Consensus_synthesize

text \<open>
  The orchestrator: the roster of its pool, its reliability memory, the rows
  \<^verbatim>\<open>write_run_record\<close> has appended to \<^verbatim>\<open>runs.csv\<close>, and the log of the components it has
  invoked, in order. The log is the model's record of the calls; the source keeps none.
\<close>

record Orchestrator =
  pool_name :: string
  solvers :: "SolverSpec list"
  domain :: string
  model_memory :: "string \<rightharpoonup> int \<times> real"
  runs_csv :: "RunRecord list"
  calls :: "call list"

text \<open>The dictionary \<^verbatim>\<open>run_single\<close> returns.\<close>

record run_result =
  task_id :: string
  arbiter_output :: ArbiterOutput
  decision_mode :: string
  used_candidates :: "string list"
  final_answer :: string
  disagreement_rate :: real

subsection \<open>String formatting\<close>

fun str_nat :: "nat \<Rightarrow> string" where
  "str_nat n =
     (if n < 10 then [char_of (48 + n)]
      else str_nat (n div 10) @ [char_of (48 + n mod 10)])"

definition str_int :: "int \<Rightarrow> string" where
  "str_int i = (if i < 0 then CHR ''-'' # str_nat (nat (- i)) else str_nat (nat i))"

definition join :: "string \<Rightarrow> string list \<Rightarrow> string" where
  "join sep xs = (case xs of [] \<Rightarrow> [] | x # rest \<Rightarrow> foldl (\<lambda>acc y. acc @ sep @ y) x rest)"

subsection \<open>\<^verbatim>\<open>run_single\<close>\<close>

text \<open>
  The disagreement rate: \<^verbatim>\<open>len(set(c.final_answer for c in candidates)) / len(candidates)\<close>.
  The number of elements of the set is the length of the list without its duplicates.
  The model keeps the exact quotient; the source holds the double nearest to it, which
  \<open>run_single\<close> below compares with the threshold.
\<close>

definition disagreement :: "SolverOutput list \<Rightarrow> error + real" where
  "disagreement candidates =
     (let unique_answers = length (remdups (map SolverOutput.final_answer candidates))
      in if length candidates = 0 then Inl ZeroDivisionError
         else Inr (real unique_answers / real (length candidates)))"

text \<open>
  The first three statements of the \<^verbatim>\<open>try\<close> block of the consensus check: \<^verbatim>\<open>top_k\<close> and
  \<^verbatim>\<open>top_candidates\<close>, the arguments \<^verbatim>\<open>synthesize\<close> is called with.
\<close>

definition consensus_inputs ::
  "int \<Rightarrow> SolverOutput list \<Rightarrow> ArbiterOutput \<Rightarrow> SolverOutput list \<times> int" where
  "consensus_inputs consensus_topk candidates_current arbiter_current =
     (let top_k = min consensus_topk (int (length candidates_current));
          ranked = map ArbiterRanking.model_id (py_take top_k (ranking arbiter_current));
          top_models = map SolverOutput.model_id
            (filter (\<lambda>c. SolverOutput.model_id c \<in> set ranked) candidates_current);
          top_candidates =
            filter (\<lambda>c. SolverOutput.model_id c \<in> set top_models) candidates_current
      in (top_candidates, top_k))"

text \<open>
  The block \<^verbatim>\<open># Consensus check\<close>: the triple \<^verbatim>\<open>(decision_mode, used_candidates,
  final_answer)\<close>, and the orchestrator with the invocation logged. The only statement of
  the \<^verbatim>\<open>try\<close> block that can raise is the call of \<^verbatim>\<open>synthesize\<close>; the three variables are
  assigned after it, and \<^verbatim>\<open>except Exception\<close> absorbs what it raises. \<^verbatim>\<open>gap\<close> is the
  double difference of the two scores.
\<close>

definition consensus_check ::
  "collaborators \<Rightarrow> Orchestrator \<Rightarrow> int \<Rightarrow> real \<Rightarrow> SolverOutput list \<Rightarrow> ArbiterOutput
     \<Rightarrow> (string \<times> string list \<times> string) \<times> Orchestrator" where
  "consensus_check w self consensus_topk epsilon candidates_current arbiter_current =
     (let hard_select = (''hard_select'', [selected_model_id arbiter_current],
                         ArbiterOutput.final_answer arbiter_current);
          rk = ranking arbiter_current
      in if 2 \<le> length rk then
           let gap = fsub (score (rk ! 0)) (score (rk ! 1))
           in if gap < epsilon then
                let (top_candidates, top_k) =
                      consensus_inputs consensus_topk candidates_current arbiter_current;
                    self' = self\<lparr>calls := calls self @ [Consensus_synthesize]\<rparr>
                in case ConsensusSynthesizer_synthesize w top_candidates top_k of
                     Inl e \<Rightarrow> (hard_select, self')
                   | Inr result \<Rightarrow>
                       ((''consensus_top'' @ str_int top_k, sources result,
                         consensus_result.final_answer result), self')
              else (hard_select, self)
         else (hard_select, self))"

text \<open>
  The rest of \<^verbatim>\<open>run_single\<close>, from \<^verbatim>\<open>arbiter_current.final_answer = final_answer\<close> to the
  \<^verbatim>\<open>return\<close>: the arbiter output is updated, the reliability memory is updated, one row per
  candidate is written, and the result is returned. Writing to the file system is not
  modelled beyond the rows.
\<close>

definition finish_run ::
  "collaborators \<Rightarrow> Orchestrator \<Rightarrow> string \<Rightarrow> SolverOutput list \<Rightarrow> ArbiterOutput \<Rightarrow> int
     \<Rightarrow> real \<Rightarrow> string \<times> string list \<times> string \<Rightarrow> run_result \<times> Orchestrator" where
  "finish_run w self task_id' candidates_current arbiter_current round_number' rate decision =
     (let decision_mode' = fst decision;
          used_candidates' = fst (snd decision);
          final_answer' = snd (snd decision);
          arbiter_final = arbiter_current
            \<lparr>ArbiterOutput.final_answer := final_answer',
             ArbiterOutput.decision_mode := decision_mode',
             ArbiterOutput.used_candidates := used_candidates'\<rparr>;
          memory1 = foldl (\<lambda>m model_id'. update_reliability m model_id' 1 (5 / 100))
                      (model_memory self) used_candidates';
          memory2 = foldl (\<lambda>m c. if SolverOutput.model_id c \<notin> set used_candidates'
                                   then update_reliability m (SolverOutput.model_id c) 0 (5 / 100)
                                   else m)
                      memory1 candidates_current;
          records = map (\<lambda>candidate.
              \<lparr>pool = pool_name self,
               iter_index = 0,
               round_number = round_number',
               solver_model_id = SolverOutput.model_id candidate,
               latency_ms = SolverOutput.latency_ms candidate,
               confidence = SolverOutput.confidence candidate,
               arbiter_score =
                 map_option score
                   (find (\<lambda>r. ArbiterRanking.model_id r = SolverOutput.model_id candidate)
                      (ranking arbiter_final)),
               RunRecord.decision_mode = decision_mode',
               RunRecord.used_candidates = join '','' used_candidates',
               RunRecord.final_answer =
                 (if 100 < length final_answer' then take 100 final_answer' @ ''...''
                  else final_answer'),
               notes = [],
               timestamp = utcnow w\<rparr>) candidates_current
      in (\<lparr>task_id = task_id',
           arbiter_output = arbiter_final,
           decision_mode = decision_mode',
           used_candidates = used_candidates',
           final_answer = final_answer',
           disagreement_rate = rate\<rparr>,
          self\<lparr>model_memory := memory2, runs_csv := runs_csv self @ records\<rparr>))"

text \<open>
  \<^verbatim>\<open>run_single(problem, task_id, consensus_topk=3, epsilon=0.07, enable_rebuttal=True,
  disagreement_threshold=0.55)\<close>. The text of the problem only reaches the remote calls,
  which are parameters, so it is not a parameter of the model. The result is the
  dictionary returned or the exception raised, together with the orchestrator as the run
  leaves it. The log message after the first arbitration reads \<^verbatim>\<open>ranking[0]\<close> and raises
  \<^verbatim>\<open>IndexError\<close> on an empty ranking. The rate compared with the threshold is the double
  quotient \<open>fl rate1\<close>.
\<close>

definition run_single ::
  "collaborators \<Rightarrow> Orchestrator \<Rightarrow> string \<Rightarrow> int \<Rightarrow> real \<Rightarrow> bool \<Rightarrow> real
     \<Rightarrow> (error + run_result) \<times> Orchestrator" where
  "run_single w self task_id' consensus_topk epsilon enable_rebuttal disagreement_threshold =
     (let self1 = self\<lparr>calls := calls self @ [Pool_run_parallel]\<rparr>
      in case SolverPool_run_parallel w task_id' (solvers self) of
           Inl e \<Rightarrow> (Inl e, self1)
         | Inr candidates_r1 \<Rightarrow>
         (case disagreement candidates_r1 of
           Inl e \<Rightarrow> (Inl e, self1)
         | Inr rate1 \<Rightarrow>
         (let self2 = self1\<lparr>calls := calls self1 @ [Arbiter_rank]\<rparr>
          in case arbiter_rank w 1 candidates_r1 of
               Inl e \<Rightarrow> (Inl e, self2)
             | Inr arbiter_out \<Rightarrow>
             if ranking arbiter_out = [] then (Inl IndexError, self2)
             else if enable_rebuttal \<and> disagreement_threshold \<le> fl rate1 then
               (let self3 = self2\<lparr>calls := calls self2 @ [Rebuttal_run]\<rparr>;
                    candidates_r2 = RebuttalRound_run (rebuttal_reply w) (utcnow w) task_id'
                                      candidates_r1
                in case disagreement candidates_r2 of
                     Inl e \<Rightarrow> (Inl e, self3)
                   | Inr rate2 \<Rightarrow>
                   (let self4 = self3\<lparr>calls := calls self3 @ [Arbiter_rank]\<rparr>
                    in case arbiter_rank w 2 candidates_r2 of
                         Inl e \<Rightarrow> (Inl e, self4)
                       | Inr arbiter_r2 \<Rightarrow>
                           (let (decision, self5) =
                                  consensus_check w self4 consensus_topk epsilon
                                    candidates_r2 arbiter_r2;
                                (result, self6) =
                                  finish_run w self5 task_id' candidates_r2 arbiter_r2 2
                                    rate2 decision
                            in (Inr result, self6))))
             else
               (let (decision, self5) =
                      consensus_check w self2 consensus_topk epsilon candidates_r1 arbiter_out;
                    (result, self6) =
                      finish_run w self5 task_id' candidates_r1 arbiter_out 1 rate1 decision
                in (Inr result, self6)))))"

subsection \<open>\<^verbatim>\<open>run_multi\<close>\<close>

record run_config =
  pool :: string
  domain :: string
  repeats :: int
  consensus_topk :: int
  epsilon :: real
  rebuttal :: bool

record final_data =
  task_id :: string
  final_answer :: string
  decision_mode :: string
  used_candidates :: "string list"
  stability :: stability
  config :: run_config

text \<open>
  The loop \<^verbatim>\<open>for i in range(repeats)\<close>, from run \<open>i\<close> with \<open>n\<close> runs left. Run \<open>i\<close> has the
  collaborators \<open>w_of i\<close>. \<^verbatim>\<open>run_multi\<close> does not pass \<^verbatim>\<open>disagreement_threshold\<close>, so every
  run has the default 0.55, the double \<open>fl (55 / 100)\<close>. An exception of a run ends the loop.
\<close>

fun run_loop ::
  "(nat \<Rightarrow> collaborators) \<Rightarrow> Orchestrator \<Rightarrow> string \<Rightarrow> int \<Rightarrow> real \<Rightarrow> bool \<Rightarrow> nat \<Rightarrow> nat
     \<Rightarrow> run_outcome list \<Rightarrow> (error + run_outcome list) \<times> Orchestrator" where
  "run_loop w_of self task_id' topk eps reb i 0 results_per_run = (Inr results_per_run, self)"
| "run_loop w_of self task_id' topk eps reb i (Suc n) results_per_run =
     (case run_single (w_of i) self task_id' topk eps reb (fl (55 / 100)) of
        (Inl e, self') \<Rightarrow> (Inl e, self')
      | (Inr result, self') \<Rightarrow>
          run_loop w_of self' task_id' topk eps reb (Suc i) n
            (results_per_run @
               [\<lparr>run_outcome.decision_mode = run_result.decision_mode result,
                 run_outcome.used_candidates = run_result.used_candidates result,
                 run_outcome.final_answer = run_result.final_answer result\<rparr>]))"

text \<open>
  \<^verbatim>\<open>run_multi(problem, task_id, repeats=5, consensus_topk=3, epsilon=0.07,
  enable_rebuttal=True)\<close>. \<^verbatim>\<open>results_per_run[-1]\<close> raises \<^verbatim>\<open>IndexError\<close> when no run was
  made. Writing \<^verbatim>\<open>final.json\<close> and saving the memory are not modelled.
\<close>

definition run_multi ::
  "(nat \<Rightarrow> collaborators) \<Rightarrow> Orchestrator \<Rightarrow> string \<Rightarrow> int \<Rightarrow> int \<Rightarrow> real \<Rightarrow> bool
     \<Rightarrow> (error + final_data) \<times> Orchestrator" where
  "run_multi w_of self task_id' repeats' consensus_topk' epsilon' enable_rebuttal =
     (case run_loop w_of self task_id' consensus_topk' epsilon' enable_rebuttal 0 (nat repeats')
             [] of
        (Inl e, self') \<Rightarrow> (Inl e, self')
      | (Inr results_per_run, self') \<Rightarrow>
          (case analyze results_per_run of
             Inl e \<Rightarrow> (Inl e, self')
           | Inr stability' \<Rightarrow>
               if results_per_run = [] then (Inl IndexError, self')
               else
                 let final_result = last results_per_run
                 in (Inr \<lparr>task_id = task_id',
                          final_answer = run_outcome.final_answer final_result,
                          decision_mode = run_outcome.decision_mode final_result,
                          used_candidates = run_outcome.used_candidates final_result,
                          stability = stability',
                          config = \<lparr>pool = pool_name self', domain = Orchestrator.domain self',
                                    repeats = repeats', consensus_topk = consensus_topk',
                                    epsilon = epsilon', rebuttal = enable_rebuttal\<rparr>\<rparr>,
                     self')))"

section \<open>Drivers and concrete inputs\<close>

text \<open>
  The loop of the tests (\<^verbatim>\<open>for ans in answers: decision = stopper.record_run(ans)\<close>),
  keeping every decision.
\<close>

fun record_runs ::
  "EarlyStopper \<Rightarrow> string list \<Rightarrow> error + StoppingDecision list \<times> EarlyStopper" where
  "record_runs self [] = Inr ([], self)"
| "record_runs self (answer # answers) =
     (case record_run self answer of
        Inl e \<Rightarrow> Inl e
      | Inr (decision, self') \<Rightarrow>
          (case record_runs self' answers of
             Inl e \<Rightarrow> Inl e
           | Inr (decisions, self'') \<Rightarrow> Inr (decision # decisions, self'')))"

text \<open>One run that resolved to \<^verbatim>\<open>hard_select\<close>, as in the docstring of \<^verbatim>\<open>analyze\<close>.\<close>

definition hard_select_run :: run_outcome where
  "hard_select_run =
     \<lparr>run_outcome.decision_mode = ''hard_select'', run_outcome.used_candidates = [''solver_02''],
      run_outcome.final_answer = ''42''\<rparr>"


text \<open>
  A manager with the default floor and ceiling (3 and 10) whose stopper has recorded nine
  runs of the answer \<^verbatim>\<open>a\<close>.
\<close>

definition manager_after_nine :: AdaptiveRunManager where
  "manager_after_nine =
     (AdaptiveRunManager_init 10 3 (85 / 100))
       \<lparr>stopper := (stopper (AdaptiveRunManager_init 10 3 (85 / 100)))
          \<lparr>run_history := replicate 9 ''a'', stability_streak := 9,
           last_dominant := Some ''a''\<rparr>\<rparr>"

text \<open>The keys of \<^verbatim>\<open>SOLVER_SCHEMA\<close>.\<close>

definition solver_keys :: "string set" where
  "solver_keys = {''model_id'', ''task_id'', ''final_answer'', ''confidence'',
                  ''assumptions'', ''risks'', ''evidence'', ''self_checks''}"

text \<open>
  The valid object of \<^verbatim>\<open>tests/test_schemas.py\<close>, and the same object without
  \<^verbatim>\<open>model_id\<close> and \<^verbatim>\<open>task_id\<close>.
\<close>

definition valid_solver :: json where
  "valid_solver =
     JObject [(''model_id'', JString ''test-model''),
              (''task_id'', JString ''task_001''),
              (''final_answer'', JString ''Test answer''),
              (''confidence'', JNumber (85 / 100)),
              (''assumptions'', JArray [JString ''A1'']),
              (''risks'', JArray [JString ''R1'']),
              (''evidence'', JArray [JString ''E1'']),
              (''self_checks'', JArray [JString ''S1''])]"

definition six_field_solver :: json where
  "six_field_solver =
     JObject [(''final_answer'', JString ''Test answer''),
              (''confidence'', JNumber (85 / 100)),
              (''assumptions'', JArray [JString ''A1'']),
              (''risks'', JArray [JString ''R1'']),
              (''evidence'', JArray [JString ''E1'']),
              (''self_checks'', JArray [JString ''S1''])]"

text \<open>
  Two candidates of a first round, and a rebuttal round in which the call of the first
  worker fails and the second worker's reply is the valid object above.
\<close>

definition candidate_a :: SolverOutput where
  "candidate_a =
     \<lparr>SolverOutput.model_id = ''openai/gpt-4-turbo-preview'', SolverOutput.task_id = ''task_001'',
      SolverOutput.final_answer = ''yes'', SolverOutput.confidence = 9 / 10, assumptions = [''A1''], risks = [],
      evidence = [''E1''], self_checks = [], SolverOutput.latency_ms = 120,
      SolverOutput.timestamp = ''2024-01-01T00:00:00''\<rparr>"

definition candidate_b :: SolverOutput where
  "candidate_b =
     \<lparr>SolverOutput.model_id = ''anthropic/claude-3-opus'', SolverOutput.task_id = ''task_001'',
      SolverOutput.final_answer = ''no'', SolverOutput.confidence = 6 / 10, assumptions = [], risks = [''R1''],
      evidence = [], self_checks = [''S1''], SolverOutput.latency_ms = 95,
      SolverOutput.timestamp = ''2024-01-01T00:00:01''\<rparr>"

definition rebuttal_reply_first_fails ::
  "nat \<Rightarrow> SolverOutput list \<Rightarrow> SolverOutput \<Rightarrow> error + json" where
  "rebuttal_reply_first_fails i other_outputs own_output =
     (if i = 0 then Inl ProviderError else Inr valid_solver)"

text \<open>
  A run of three workers: two answer \<^verbatim>\<open>yes\<close> and one \<^verbatim>\<open>no\<close>; every rebuttal call and
  the consensus call fail; the arbiter ranks the three workers 0.91, 0.85 and 0.70, as in
  the scenario of the specification. In \<open>world_all_fail\<close> every solver call fails too.
\<close>

definition roster_example :: "SolverSpec list" where
  "roster_example =
     [\<lparr>SolverSpec.model_id = ''openai/gpt-4-turbo-preview'', temperature = 7 / 10\<rparr>,
      \<lparr>SolverSpec.model_id = ''anthropic/claude-3-opus'', temperature = 7 / 10\<rparr>,
      \<lparr>SolverSpec.model_id = ''meta-llama/llama-3-70b-instruct'', temperature = 6 / 10\<rparr>]"

definition solver_json :: "string \<Rightarrow> json" where
  "solver_json answer =
     JObject [(''model_id'', JString ''m''),
              (''task_id'', JString ''task_001''),
              (''final_answer'', JString answer),
              (''confidence'', JNumber (8 / 10)),
              (''assumptions'', JArray []),
              (''risks'', JArray []),
              (''evidence'', JArray []),
              (''self_checks'', JArray [])]"

definition first_round_example :: "SolverOutput list" where
  "first_round_example =
     [\<lparr>SolverOutput.model_id = ''openai/gpt-4-turbo-preview'',
       SolverOutput.task_id = ''task_001'', SolverOutput.final_answer = ''yes'',
       SolverOutput.confidence = 8 / 10, assumptions = [], risks = [], evidence = [],
       self_checks = [], SolverOutput.latency_ms = 100,
       SolverOutput.timestamp = ''2024-01-01T00:00:00''\<rparr>,
      \<lparr>SolverOutput.model_id = ''anthropic/claude-3-opus'',
       SolverOutput.task_id = ''task_001'', SolverOutput.final_answer = ''yes'',
       SolverOutput.confidence = 8 / 10, assumptions = [], risks = [], evidence = [],
       self_checks = [], SolverOutput.latency_ms = 100,
       SolverOutput.timestamp = ''2024-01-01T00:00:00''\<rparr>,
      \<lparr>SolverOutput.model_id = ''meta-llama/llama-3-70b-instruct'',
       SolverOutput.task_id = ''task_001'', SolverOutput.final_answer = ''no'',
       SolverOutput.confidence = 8 / 10, assumptions = [], risks = [], evidence = [],
       self_checks = [], SolverOutput.latency_ms = 100,
       SolverOutput.timestamp = ''2024-01-01T00:00:00''\<rparr>]"

definition arbiter_example :: ArbiterOutput where
  "arbiter_example =
     \<lparr>ArbiterOutput.task_id = ''task_001'',
      selected_model_id = ''openai/gpt-4-turbo-preview'',
      ranking =
        [\<lparr>ArbiterRanking.model_id = ''openai/gpt-4-turbo-preview'', score = 91 / 100\<rparr>,
         \<lparr>ArbiterRanking.model_id = ''anthropic/claude-3-opus'', score = 85 / 100\<rparr>,
         \<lparr>ArbiterRanking.model_id = ''meta-llama/llama-3-70b-instruct'', score = 70 / 100\<rparr>],
      ArbiterOutput.final_answer = ''yes'',
      arbiter_notes = [],
      ArbiterOutput.decision_mode = ''hard_select'',
      ArbiterOutput.used_candidates = [''openai/gpt-4-turbo-preview''],
      ArbiterOutput.timestamp = ''2024-01-01T00:00:00''\<rparr>"

definition world_example :: collaborators where
  "world_example =
     \<lparr>solver_reply = (\<lambda>spec. Inr (solver_json
         (if SolverSpec.model_id spec = ''meta-llama/llama-3-70b-instruct'' then ''no''
          else ''yes''))),
      solver_latency = (\<lambda>spec. 100),
      rebuttal_reply = (\<lambda>i other_outputs own_output. Inl ProviderError),
      arbiter_rank = (\<lambda>n candidates. Inr arbiter_example),
      consensus_reply = (\<lambda>candidates topk. Inl ProviderError),
      utcnow = ''2024-01-01T00:00:00''\<rparr>"

definition world_all_fail :: collaborators where
  "world_all_fail = world_example\<lparr>solver_reply := (\<lambda>spec. Inl ProviderError)\<rparr>"

definition orchestrator_example :: Orchestrator where
  "orchestrator_example =
     \<lparr>pool_name = ''science'', solvers = roster_example, Orchestrator.domain = ''science'',
      model_memory = Map.empty, runs_csv = [], calls = []\<rparr>"

text \<open>
  Repeated runs in which every run meets the collaborators of the example run, and the
  outcome each of these runs has.
\<close>

definition worlds_example :: "nat \<Rightarrow> collaborators" where
  "worlds_example i = world_example"

definition example_outcome :: run_outcome where
  "example_outcome =
     \<lparr>run_outcome.decision_mode = ''hard_select'',
      run_outcome.used_candidates = [''openai/gpt-4-turbo-preview''],
      run_outcome.final_answer = ''yes''\<rparr>"






section \<open>Rounding to the nearest double\<close>

lemma round_half_even_eqI:
  assumes "\<bar>x - of_int m\<bar> < 1 / 2"
  shows "round_half_even x = m"
proof -
  have a: "of_int m - 1 / 2 < x" "x < of_int m + 1 / 2" using assms by linarith+
  have "\<lfloor>x\<rfloor> = m \<or> \<lfloor>x\<rfloor> = m - 1" using a by linarith
  then show ?thesis
  proof
    assume f: "\<lfloor>x\<rfloor> = m"
    then have "x - of_int m < 1 / 2" using a by simp
    then show ?thesis by (simp add: round_half_even_def Let_def f)
  next
    assume f: "\<lfloor>x\<rfloor> = m - 1"
    have "1 / 2 < x - of_int (m - 1)" using a by simp
    then show ?thesis by (simp add: round_half_even_def Let_def f)
  qed
qed

lemma floor_log2_eqI:
  fixes x :: real
  assumes "2 powi k \<le> x" "x < 2 powi (k + 1)"
  shows "\<lfloor>log 2 x\<rfloor> = k"
proof -
  have p: "0 < (2::real) powi k" by simp
  then have x: "0 < x" using assms(1) by linarith
  have c: "\<And>j::int. (2::real) powr (of_int j) = 2 powi j"
    by (simp add: powr_real_of_int power_int_def power_one_over inverse_eq_divide)
  have "(2::real) powr (of_int k) \<le> x" "x < (2::real) powr (of_int k + 1)"
    using assms c[of k] c[of "k + 1"] by simp_all
  then show ?thesis
    using floor_log_eq_powr_iff[of x 2 k] x by simp
qed

lemma fl_eqI:
  assumes "2 powi k \<le> \<bar>x\<bar>" "\<bar>x\<bar> < 2 powi (k + 1)" "- 1022 \<le> k"
    and "\<bar>x / 2 powi (k - 52) - of_int m\<bar> < 1 / 2"
  shows "fl x = of_int m * 2 powi (k - 52)"
proof -
  have "0 < (2::real) powi k" by simp
  then have "0 < \<bar>x\<bar>" using assms(1) by linarith
  then have nz: "x \<noteq> 0" by simp
  have e: "max \<lfloor>log 2 \<bar>x\<bar>\<rfloor> (- 1022) - 52 = k - 52"
    using floor_log2_eqI[OF assms(1,2)] assms(3) by simp
  show ?thesis
    unfolding fl_def Let_def e using nz round_half_even_eqI[OF assms(4)] by simp
qed

lemma fl_zero: "fl 0 = 0" by (simp add: fl_def)

lemma fl_eqI_nat:
  assumes "2 ^ 52 \<le> \<bar>x\<bar> * 2 ^ j" "\<bar>x\<bar> * 2 ^ j < 2 ^ 53" "j \<le> 1074"
    and "\<bar>x * 2 ^ j - of_int m\<bar> < 1 / 2"
  shows "fl x = of_int m / 2 ^ j"
proof -
  have p: "(2::real) powi (52 - int j) = 2 ^ 52 / 2 ^ j"
    by (simp add: power_int_diff)
  have q: "(2::real) powi (52 - int j + 1) = 2 ^ 53 / 2 ^ j"
    using power_int_diff[of "2::real" 53 "int j"] by (simp add: algebra_simps)
  have r: "(2::real) powi (52 - int j - 52) = 1 / 2 ^ j"
    by (simp add: power_int_minus inverse_eq_divide)
  have a: "2 powi (52 - int j) \<le> \<bar>x\<bar>"
    unfolding p using assms(1) by (simp add: field_simps)
  have b: "\<bar>x\<bar> < 2 powi (52 - int j + 1)"
    unfolding q using assms(2) by (simp add: field_simps)
  have c: "- 1022 \<le> 52 - int j" using assms(3) by simp
  have d: "\<bar>x / 2 powi (52 - int j - 52) - of_int m\<bar> < 1 / 2"
    unfolding r using assms(4) by simp
  show ?thesis
    using fl_eqI[OF a b c d] unfolding r by simp
qed


lemma round_half_even_tie:
  assumes "x = of_int f + 1 / 2"
  shows "round_half_even x = (if even f then f else f + 1)"
proof -
  have "\<lfloor>x\<rfloor> = f" unfolding assms by linarith
  then show ?thesis
    by (simp add: round_half_even_def Let_def assms)
qed

lemma fl_tieI_nat:
  assumes "2 ^ 52 \<le> \<bar>x\<bar> * 2 ^ j" "\<bar>x\<bar> * 2 ^ j < 2 ^ 53" "j \<le> 1074"
    and "x * 2 ^ j = of_int f + 1 / 2"
  shows "fl x = of_int (if even f then f else f + 1) / 2 ^ j"
proof -
  have nz: "x \<noteq> 0" using assms(1) by auto
  have p: "(2::real) powi (52 - int j) = 2 ^ 52 / 2 ^ j"
    by (simp add: power_int_diff)
  have q: "(2::real) powi (52 - int j + 1) = 2 ^ 53 / 2 ^ j"
    using power_int_diff[of "2::real" 53 "int j"] by (simp add: algebra_simps)
  have r: "(2::real) powi (52 - int j - 52) = 1 / 2 ^ j"
    by (simp add: power_int_minus inverse_eq_divide)
  have a: "2 powi (52 - int j) \<le> \<bar>x\<bar>"
    unfolding p using assms(1) by (simp add: field_simps)
  have b: "\<bar>x\<bar> < 2 powi (52 - int j + 1)"
    unfolding q using assms(2) by (simp add: field_simps)
  have e: "max \<lfloor>log 2 \<bar>x\<bar>\<rfloor> (- 1022) - 52 = 52 - int j - 52"
    using floor_log2_eqI[OF a b] assms(3) by simp
  have d: "x / 2 powi (52 - int j - 52) = of_int f + 1 / 2"
    unfolding r using assms(4) by simp
  show ?thesis
    unfolding fl_def Let_def e using nz round_half_even_tie[OF d] unfolding r by simp
qed


lemma scaled_lower:
  fixes x :: real
  assumes "(of_int m - 1 / 2) / 2 ^ j < x"
  shows "of_int m - 1 / 2 < x * 2 ^ j"
  using assms by (simp add: pos_divide_less_eq)

lemma scaled_upper:
  fixes x :: real
  assumes "x < (of_int m + 1 / 2) / 2 ^ j"
  shows "x * 2 ^ j < of_int m + 1 / 2"
  using assms by (simp add: pos_less_divide_eq)

lemma significand_lower:
  assumes "2 ^ 52 < (m::int)"
  shows "(2::real) ^ 52 + 1 \<le> of_int m"
proof -
  have "(2::int) ^ 52 + 1 \<le> m" using assms by linarith
  then have "real_of_int (2 ^ 52 + 1) \<le> of_int m" by (rule iffD2[OF of_int_le_iff])
  then show ?thesis by simp
qed

lemma significand_upper:
  assumes "(m::int) < 2 ^ 53"
  shows "of_int m + 1 \<le> (2::real) ^ 53"
proof -
  have "m + 1 \<le> (2::int) ^ 53" using assms by linarith
  then have "real_of_int (m + 1) \<le> of_int ((2::int) ^ 53)" by (rule iffD2[OF of_int_le_iff])
  then show ?thesis by simp
qed


lemma fl_betweenI:
  assumes "(of_int m - 1 / 2) / 2 ^ j < x" "x < (of_int m + 1 / 2) / 2 ^ j"
    and "2 ^ 52 < m" "m < 2 ^ 53" "j \<le> 1074"
  shows "fl x = of_int m / 2 ^ j"
proof -
  note l = scaled_lower[OF assms(1)] and u = scaled_upper[OF assms(2)] and m1 = significand_lower[OF assms(3)] and m2 = significand_upper[OF assms(4)]
  have p: "(0::real) < 2 ^ 52" "(2::real) ^ 53 = 2 * 2 ^ 52" by simp_all
  have "0 < x * 2 ^ j" using l m1 p by linarith
  then have x: "0 < x" by (simp add: zero_less_mult_iff)
  then have ax: "\<bar>x\<bar> = x" by simp
  show ?thesis
  proof (rule fl_eqI_nat)
    show "2 ^ 52 \<le> \<bar>x\<bar> * 2 ^ j" unfolding ax using l m1 p by linarith
    show "\<bar>x\<bar> * 2 ^ j < 2 ^ 53" unfolding ax using u m2 p by linarith
    show "j \<le> 1074" by (rule assms(5))
    show "\<bar>x * 2 ^ j - of_int m\<bar> < 1 / 2" using l u by linarith
  qed
qed

lemma fmul_zero: "fmul 0 y = 0"
  by (simp add: fmul_def fl_zero)

lemma fmul_zero_right: "fmul x 0 = 0"
  by (simp add: fmul_def fl_zero)

text \<open>The doubles nearest to some decimals and quotients used below.\<close>

lemma double_two_thirds: "fl (2 / 3) = 6004799503160661 / 9007199254740992"
proof -
  have "fl (2 / 3) = of_int 6004799503160661 / 2 ^ 53"
    by (rule fl_eqI_nat) simp_all
  then show ?thesis by simp
qed

lemma double_0_55: "fl (55 / 100) = 2476979795053773 / 4503599627370496"
proof -
  have "fl (55 / 100) = of_int 4953959590107546 / 2 ^ 53"
    by (rule fl_eqI_nat) simp_all
  then show ?thesis by simp
qed

lemma double_0_07: "fl (7 / 100) = 1261007895663739 / 18014398509481984"
proof -
  have "fl (7 / 100) = of_int 5044031582654956 / 2 ^ 56"
    by (rule fl_eqI_nat) simp_all
  then show ?thesis by simp
qed


lemma double_gap_0_91_0_85: "fsub (91 / 100) (85 / 100) = 1080863910568919 / 18014398509481984"
proof -
  have "fl (91 / 100 - 85 / 100) = of_int 8646911284551352 / 2 ^ 57"
    by (rule fl_eqI_nat) simp_all
  then show ?thesis by (simp add: fsub_def)
qed


section \<open>Wilson interval of a unanimous sample\<close>

lemma wilson_denominator:
  fixes n z :: real
  assumes "0 < n"
  shows "1 / (1 + z ^ 2 / n) = n / (n + z ^ 2)"
proof -
  have "n + z ^ 2 \<noteq> 0" using assms by (smt (verit) zero_le_power2)
  then show ?thesis using assms by (simp add: field_simps)
qed

lemma wilson_full_lower:
  fixes n z :: real
  assumes "0 < n"
  shows "(1 + z ^ 2 / (2 * n)) / (1 + z ^ 2 / n) - z * (z / (2 * n) / (1 + z ^ 2 / n))
           = n / (n + z ^ 2)"
proof -
  have "(1 + z ^ 2 / (2 * n)) / (1 + z ^ 2 / n) - z * (z / (2 * n) / (1 + z ^ 2 / n))
          = ((1 + z ^ 2 / (2 * n)) - z * (z / (2 * n))) / (1 + z ^ 2 / n)"
    by (simp add: diff_divide_distrib)
  also have "(1 + z ^ 2 / (2 * n)) - z * (z / (2 * n)) = 1"
    by (simp add: power2_eq_square)
  finally show ?thesis using wilson_denominator[OF assms] by simp
qed

lemma wilson_full_upper:
  fixes n z :: real
  assumes "0 < n"
  shows "(1 + z ^ 2 / (2 * n)) / (1 + z ^ 2 / n) + z * (z / (2 * n) / (1 + z ^ 2 / n)) = 1"
proof -
  have d: "1 + z ^ 2 / n \<noteq> 0" using assms by (smt (verit) divide_nonneg_pos zero_le_power2)
  have "(1 + z ^ 2 / (2 * n)) / (1 + z ^ 2 / n) + z * (z / (2 * n) / (1 + z ^ 2 / n))
          = ((1 + z ^ 2 / (2 * n)) + z * (z / (2 * n))) / (1 + z ^ 2 / n)"
    by (simp add: add_divide_distrib)
  also have "(1 + z ^ 2 / (2 * n)) + z * (z / (2 * n)) = 1 + z ^ 2 / n"
    by (simp add: power2_eq_square)
  finally show ?thesis using d by simp
qed

lemma wilson_full_radicand:
  fixes n z :: real
  assumes "0 < n"
  shows "((1::real) * (1 - 1) + z ^ 2 / (4 * n)) / n = (z / (2 * n)) ^ 2"
  using assms by (simp add: power2_eq_square)

lemma calculate_all: 
  assumes "0 < n"
  shows "calculate n n = Inr (real_of_int n / (real_of_int n + (196/100)^2), 1)"
proof -
  let ?n = "real_of_int n"
  define z :: real where "z = 196 / 100"
  have n0: "0 < ?n" using assms by simp
  have z0: "0 < z" by (simp add: z_def)
  have sq: "sqrt ((z / (2 * ?n)) ^ 2) = z / (2 * ?n)"
    using n0 z0 by (simp add: real_sqrt_abs)
  have pos: "0 \<le> ?n / (?n + z ^ 2)" using n0 by simp
  have ph: "real_of_int n / real_of_int n = 1" using n0 by simp
  have nn: "\<not> (z / (2 * ?n)) ^ 2 < 0" by simp
  have "calculate n n = Inr (max 0 (?n / (?n + z ^ 2)), min 1 1)"
    unfolding calculate_def Let_def math_sqrt_def ph z_def[symmetric]
      wilson_full_radicand[OF n0] sq
    using assms nn
    by (simp only: if_False sum.case wilson_full_lower[OF n0] wilson_full_upper[OF n0])
       simp
  then show ?thesis using pos by (simp add: z_def max_def)
qed

section \<open>Stability of unanimous runs\<close>

lemma foldl_counter_add_same:
  "foldl (\<lambda>acc x. counter_add x acc) [(x, c)] (replicate n x) = [(x, c + n)]"
  by (induction n arbitrary: c) simp_all

lemma Counter_replicate: "0 < n \<Longrightarrow> Counter (replicate n x) = [(x, n)]"
  by (cases n) (simp_all add: Counter_def foldl_counter_add_same)

lemma map_const_replicate: "\<forall>r\<in>set rs. f r = m \<Longrightarrow> map f rs = replicate (length rs) m"
  by (induction rs) simp_all

lemma py_round_ge_floor: "of_int \<lfloor>x * 10 ^ k\<rfloor> / 10 ^ k \<le> py_round x k"
  by (simp add: py_round_def Let_def divide_right_mono)

lemma py_round_one: "py_round 1 3 = 1"
  by (simp add: py_round_def Let_def)

lemma analyze_all_same:
  assumes "rs \<noteq> []" and "\<forall>r\<in>set rs. run_outcome.decision_mode r = m"
  shows "analyze rs =
           Inr \<lparr>majority_rate = 1,
                ci_lower = py_round (real (length rs) / (real (length rs) + (196 / 100)\<^sup>2)) 3,
                ci_upper = 1,
                majority_mode = Some m,
                mode_distribution = [(m, length rs)],
                total_runs = Some (length rs)\<rparr>"
proof -
  have n: "0 < length rs" using assms(1) by simp
  have c: "Counter (map run_outcome.decision_mode rs) = [(m, length rs)]"
    using map_const_replicate[OF assms(2)] Counter_replicate[OF n] by simp
  have w: "calculate (int (length rs)) (int (length rs)) =
             Inr (real (length rs) / (real (length rs) + (196 / 100)\<^sup>2), 1)"
    using calculate_all[of "int (length rs)"] n by simp
  have q: "real (length rs) / real (length rs) = 1" using n by simp
  show ?thesis
    unfolding analyze_def Let_def c using assms(1)
    by (simp add: w q py_round_one)
qed

lemma unanimous_lower_bound:
  fixes n :: real
  assumes "4 \<le> n"
  shows "501 \<le> n / (n + (196 / 100)\<^sup>2) * 10 ^ 3"
proof -
  have "0 < n + (196 / 100)\<^sup>2" using assms by (simp add: power2_eq_square)
  then show ?thesis using assms by (simp add: field_simps power2_eq_square)
qed

text \<open>
  Claim C2, amended. For every list of at least four per-run outcomes whose decision-mode
  labels are all the same label \<open>m\<close>, \<^verbatim>\<open>StabilityAnalyzer.analyze\<close> returns
  \<^verbatim>\<open>majority_rate\<close> 1.0, \<^verbatim>\<open>majority_mode\<close> \<open>m\<close> and a Wilson lower bound \<^verbatim>\<open>ci_lower\<close>
  strictly greater than 0.5. The unrounded bound of \<open>n\<close> unanimous runs is
  \<open>n / (n + 1.96\<^sup>2)\<close>, which exceeds one half only from \<open>n = 4\<close> on.
\<close>

theorem analyze_unanimous:
  assumes "4 \<le> length rs" and "\<forall>r\<in>set rs. run_outcome.decision_mode r = m"
  shows "\<exists>st. analyze rs = Inr st \<and> majority_rate st = 1 \<and> majority_mode st = Some m
              \<and> 1 / 2 < ci_lower st"
proof -
  let ?n = "real (length rs)"
  have ne: "rs \<noteq> []" using assms(1) by auto
  have "501 \<le> ?n / (?n + (196 / 100)\<^sup>2) * 10 ^ 3"
    using unanimous_lower_bound[of ?n] assms(1) by simp
  then have "501 \<le> \<lfloor>?n / (?n + (196 / 100)\<^sup>2) * 10 ^ 3\<rfloor>" by (simp add: le_floor_iff)
  then have "(501::real) \<le> of_int \<lfloor>?n / (?n + (196 / 100)\<^sup>2) * 10 ^ 3\<rfloor>" 
    by (metis of_int_le_iff of_int_numeral)
  then have "501 / 10 ^ 3 \<le> py_round (?n / (?n + (196 / 100)\<^sup>2)) 3"
    using py_round_ge_floor[of "?n / (?n + (196 / 100)\<^sup>2)" 3]
    by (smt (verit) divide_right_mono zero_le_numeral zero_le_power)
  then have "1 / 2 < py_round (?n / (?n + (196 / 100)\<^sup>2)) 3" by simp
  then show ?thesis using analyze_all_same[OF ne assms(2)] by simp
qed

text \<open>The scenario of the specification: five runs, all \<^verbatim>\<open>hard_select\<close>.\<close>

theorem analyze_unanimous_witness:
  "\<exists>st. analyze (replicate 5 hard_select_run) = Inr st \<and> majority_rate st = 1
        \<and> majority_mode st = Some ''hard_select'' \<and> 1 / 2 < ci_lower st"
  using analyze_unanimous[of "replicate 5 hard_select_run" "''hard_select''"]
  by (simp add: hard_select_run_def)

text \<open>
  Claim C2 as stated (\<open>N \<ge> 3\<close>) fails at three unanimous runs: the bound is
  \<open>3 / 6.8416\<close>, reported as 0.438.
\<close>

theorem analyze_three_unanimous_counterexample:
  "map_sum id ci_lower (analyze [hard_select_run, hard_select_run, hard_select_run])
     = Inr (438 / 1000)
   \<and> \<not> (1 / 2 < (438 / 1000 :: real))"
proof -
  have "analyze [hard_select_run, hard_select_run, hard_select_run] =
     Inr \<lparr>majority_rate = 1,
                ci_lower = py_round (3 / (3 + (196 / 100)\<^sup>2)) 3,
                ci_upper = 1,
                majority_mode = Some ''hard_select'',
                mode_distribution = [(''hard_select'', 3)],
                total_runs = Some 3\<rparr>"
    using analyze_all_same[of "[hard_select_run, hard_select_run, hard_select_run]" "''hard_select''"]
    by (simp add: hard_select_run_def)
  moreover have "py_round (3 / (3 + (196 / 100)\<^sup>2)) 3 = 438 / 1000"
    by (simp add: py_round_def Let_def power2_eq_square)
  ultimately show ?thesis by simp
qed

section \<open>The dominant element of a counter; totality of the Wilson interval\<close>

lemma counter_add_nonempty: "counter_add x acc \<noteq> []"
  by (induction x acc rule: counter_add.induct) simp_all

lemma counter_add_sum: "sum_list (map snd (counter_add x acc)) = sum_list (map snd acc) + 1"
  by (induction x acc rule: counter_add.induct) simp_all

lemma counter_add_pos: "\<forall>kc\<in>set acc. 1 \<le> snd kc \<Longrightarrow> \<forall>kc\<in>set (counter_add x acc). 1 \<le> snd kc"
  by (induction x acc rule: counter_add.induct) auto

lemma foldl_counter_sum:
  "sum_list (map snd (foldl (\<lambda>acc x. counter_add x acc) acc xs)) = sum_list (map snd acc) + length xs"
  by (induction xs arbitrary: acc) (simp_all add: counter_add_sum)

lemma foldl_counter_pos:
  "\<forall>kc\<in>set acc. 1 \<le> snd kc \<Longrightarrow>
   \<forall>kc\<in>set (foldl (\<lambda>acc x. counter_add x acc) acc xs). 1 \<le> snd kc"
proof (induction xs arbitrary: acc)
  case Nil then show ?case by simp
next
  case (Cons x xs)
  show ?case using Cons.IH[OF counter_add_pos[OF Cons.prems]] by simp
qed

lemma foldl_counter_nonempty:
  "acc \<noteq> [] \<or> xs \<noteq> [] \<Longrightarrow> foldl (\<lambda>acc x. counter_add x acc) acc xs \<noteq> []"
  by (induction xs arbitrary: acc) (auto simp: counter_add_nonempty)

lemma Counter_sum: "sum_list (map snd (Counter xs)) = length xs"
  by (simp add: Counter_def foldl_counter_sum)

lemma Counter_pos: "kc \<in> set (Counter xs) \<Longrightarrow> 1 \<le> snd kc"
  using foldl_counter_pos[of "[]" xs] by (simp add: Counter_def)

lemma Counter_nonempty: "xs \<noteq> [] \<Longrightarrow> Counter xs \<noteq> []"
  by (simp add: Counter_def foldl_counter_nonempty)

lemma most_common1_mem: "most_common1 l = Some m \<Longrightarrow> m \<in> set l"
  by (induction l arbitrary: m) (auto split: option.splits if_splits)

lemma most_common1_nonempty: "l \<noteq> [] \<Longrightarrow> \<exists>m. most_common1 l = Some m"
  by (cases l) (auto split: option.splits)

lemma member_le_sum_list: "(kc :: 'a \<times> nat) \<in> set l \<Longrightarrow> snd kc \<le> sum_list (map snd l)"
  by (induction l) auto

lemma most_common1_Counter:
  assumes "xs \<noteq> []"
  shows "\<exists>k c. most_common1 (Counter xs) = Some (k, c) \<and> 1 \<le> c \<and> c \<le> length xs"
proof -
  obtain m where m: "most_common1 (Counter xs) = Some m"
    using most_common1_nonempty[OF Counter_nonempty[OF assms]] by blast
  have mem: "m \<in> set (Counter xs)" using most_common1_mem[OF m] .
  have "1 \<le> snd m" using Counter_pos[OF mem] .
  moreover have "snd m \<le> length xs" using member_le_sum_list[OF mem] by (simp add: Counter_sum)
  ultimately show ?thesis using m by (cases m) auto
qed

lemma wilson_radicand_nonneg:
  fixes p n z :: real
  assumes "0 \<le> p" "p \<le> 1" "0 < n"
  shows "0 \<le> (p * (1 - p) + z * z / (4 * n)) / n"
proof -
  have "0 \<le> p * (1 - p)" using assms by simp
  moreover have "0 \<le> z * z / (4 * n)" using assms by simp
  ultimately show ?thesis using assms by simp
qed

lemma wilson_ci_total:
  assumes "0 \<le> s" "s \<le> n"
  shows "\<exists>lo hi. wilson_ci s n c = Inr (lo, hi)"
proof (cases "n = 0")
  case True then show ?thesis by (simp add: wilson_ci_def)
next
  case False
  then have n: "0 < real_of_int n" using assms by simp
  have p0: "0 \<le> real_of_int s / real_of_int n" using assms n by simp
  have p1: "real_of_int s / real_of_int n \<le> 1" using assms n by simp
  show ?thesis
    using wilson_radicand_nonneg[OF p0 p1 n] False
    by (simp add: wilson_ci_def Let_def math_sqrt_def not_less[symmetric] del: not_less)
qed

lemma calculate_total:
  assumes "0 \<le> s" "s \<le> n"
  shows "\<exists>lo hi. calculate s n = Inr (lo, hi)"
proof (cases "n = 0")
  case True then show ?thesis by (simp add: calculate_def)
next
  case False
  then have n: "0 < real_of_int n" using assms by simp
  have p0: "0 \<le> real_of_int s / real_of_int n" using assms n by simp
  have p1: "real_of_int s / real_of_int n \<le> 1" using assms n by simp
  show ?thesis
    using wilson_radicand_nonneg[OF p0 p1 n, of "196/100"] False
    by (simp add: calculate_def Let_def math_sqrt_def power2_eq_square not_less[symmetric] del: not_less)
qed

section \<open>Early stopping\<close>

lemma record_run_returns:
  "\<exists>k c lo hi.
     most_common1 (Counter (run_history self @ [get_answer_signature answer])) = Some (k, c)
     \<and> wilson_ci (int c) (int (length (run_history self)) + 1) (95 / 100) = Inr (lo, hi)
     \<and> record_run self answer =
         Inr (\<lparr>should_stop = fst (stopping_conditions (EarlyStopper.config self)
                   (int (length (run_history self)) + 1) lo
                   (real c / (real (length (run_history self)) + 1))
                   (if Some k = last_dominant self then stability_streak self + 1 else 1)),
               reason = snd (stopping_conditions (EarlyStopper.config self)
                   (int (length (run_history self)) + 1) lo
                   (real c / (real (length (run_history self)) + 1))
                   (if Some k = last_dominant self then stability_streak self + 1 else 1)),
               current_run = int (length (run_history self)) + 1,
               total_planned_runs = 0,
               convergence_score = real c / (real (length (run_history self)) + 1),
               confidence_interval = (lo, hi),
               dominant_answer = Some k,
               dominant_count = int c,
               saved_runs = 0\<rparr>,
              self\<lparr>run_history := run_history self @ [get_answer_signature answer],
                   stability_streak :=
                     (if Some k = last_dominant self then stability_streak self + 1 else 1),
                   last_dominant := Some k\<rparr>)"
proof -
  let ?h = "run_history self @ [get_answer_signature answer]"
  obtain k c where kc: "most_common1 (Counter ?h) = Some (k, c)" and c: "1 \<le> c" "c \<le> length ?h"
    using most_common1_Counter[of ?h] by auto
  obtain lo hi where w: "wilson_ci (int c) (int (length ?h)) (95 / 100) = Inr (lo, hi)"
    using wilson_ci_total[of "int c" "int (length ?h)" "95 / 100"] c by fastforce
  have w': "wilson_ci (int c) (int (length (run_history self)) + 1) (95 / 100) = Inr (lo, hi)"
    using w by (simp add: add.commute)
  show ?thesis
    using kc w' unfolding record_run_def Let_def
    by (simp add: add.commute)
qed


lemma five_runs:
  "map_sum id (\<lambda>(ds, s). map (\<lambda>d. (convergence_score d, dominant_count d)) ds)
         (record_runs (EarlyStopper_init None) [''a'', ''a'', ''b'', ''a'', ''c''])
       = Inr [(1, 1), (1, 2), (2 / 3, 2), (3 / 4, 3), (6 / 10, 3)]"
  by (simp add: record_run_def EarlyStopper_init_def Counter_def get_answer_signature_def
      py_strip_def py_lower_char_def py_isspace_def wilson_ci_def math_sqrt_def Let_def)

lemma record_run_order:
  "\<exists>d self'. record_run self answer = Inr (d, self')
     \<and> current_run d = int (length (run_history self)) + 1
     \<and> (should_stop d, reason d) =
         (if current_run d < EarlyStoppingConfig.min_runs (EarlyStopper.config self) then
            (False, Minimum_runs_not_reached (current_run d)
                      (EarlyStoppingConfig.min_runs (EarlyStopper.config self)))
          else if confidence_threshold (EarlyStopper.config self) \<le> fst (confidence_interval d) then
            (True, High_confidence_achieved (fst (confidence_interval d))
                     (confidence_threshold (EarlyStopper.config self)))
          else if convergence_threshold (EarlyStopper.config self) \<le> convergence_score d
                  \<and> stability_window (EarlyStopper.config self) \<le> stability_streak self' then
            (True, Stable_convergence (convergence_score d) (stability_streak self'))
          else if enable_adaptive (EarlyStopper.config self) \<and> 5 \<le> current_run d
                  \<and> 8 / 10 \<le> convergence_score d then
            (True, Adaptive_stop (convergence_score d) (current_run d))
          else (False, Continuing_runs))"
proof -
  obtain k c lo hi where
    r: "record_run self answer =
         Inr (\<lparr>should_stop = fst (stopping_conditions (EarlyStopper.config self)
                   (int (length (run_history self)) + 1) lo
                   (real c / (real (length (run_history self)) + 1))
                   (if Some k = last_dominant self then stability_streak self + 1 else 1)),
               reason = snd (stopping_conditions (EarlyStopper.config self)
                   (int (length (run_history self)) + 1) lo
                   (real c / (real (length (run_history self)) + 1))
                   (if Some k = last_dominant self then stability_streak self + 1 else 1)),
               current_run = int (length (run_history self)) + 1,
               total_planned_runs = 0,
               convergence_score = real c / (real (length (run_history self)) + 1),
               confidence_interval = (lo, hi),
               dominant_answer = Some k,
               dominant_count = int c,
               saved_runs = 0\<rparr>,
              self\<lparr>run_history := run_history self @ [get_answer_signature answer],
                   stability_streak :=
                     (if Some k = last_dominant self then stability_streak self + 1 else 1),
                   last_dominant := Some k\<rparr>)"
    using record_run_returns[of self answer] by blast
  show ?thesis
    unfolding r by (simp add: stopping_conditions_def)
qed

lemma should_continue_floor_ceiling:
  "\<exists>c d m'. should_continue m answer planned = Inr (c, d, m')
     \<and> current_run d = int (length (run_history (stopper m))) + 1
     \<and> (current_run d < min_runs m \<longrightarrow> c)
     \<and> (min_runs m \<le> current_run d \<and> max_runs m \<le> current_run d \<longrightarrow>
          \<not> c \<and> should_stop d \<and> reason d = Maximum_runs_reached (max_runs m))"
proof -
  obtain d0 s' where r: "record_run (stopper m) answer = Inr (d0, s')"
    and cur: "current_run d0 = int (length (run_history (stopper m))) + 1"
    using record_run_order[of "stopper m" answer] by blast
  show ?thesis
    unfolding should_continue_def r using cur by (auto simp: Let_def)
qed

lemma should_continue_ceiling:
  assumes "min_runs m \<le> max_runs m"
  shows "\<exists>c d m'. should_continue m answer planned = Inr (c, d, m')
           \<and> current_run d = int (length (run_history (stopper m))) + 1
           \<and> (current_run d < min_runs m \<longrightarrow> c)
           \<and> (max_runs m \<le> current_run d \<longrightarrow>
                \<not> c \<and> should_stop d \<and> reason d = Maximum_runs_reached (max_runs m))"
proof -
  obtain c d m' where r: "should_continue m answer planned = Inr (c, d, m')"
      "current_run d = int (length (run_history (stopper m))) + 1"
      "current_run d < min_runs m \<longrightarrow> c"
      "min_runs m \<le> current_run d \<and> max_runs m \<le> current_run d \<longrightarrow>
         \<not> c \<and> should_stop d \<and> reason d = Maximum_runs_reached (max_runs m)"
    using should_continue_floor_ceiling[of m answer planned] by blast
  have "max_runs m \<le> current_run d \<longrightarrow>
          \<not> c \<and> should_stop d \<and> reason d = Maximum_runs_reached (max_runs m)"
    using r(4) assms by linarith
  then show ?thesis using r(1-3) by blast
qed

text \<open>
  What holds of the early stopping for every configuration. (1) \<^verbatim>\<open>EarlyStopper.record_run\<close>
  always returns a decision; the decision never has \<^verbatim>\<open>should_stop\<close> set while the length
  of the history (the new run included) is below \<^verbatim>\<open>min_runs\<close>; and its verdict follows the
  rules in the fixed order: minimum runs, Wilson lower bound against
  \<^verbatim>\<open>confidence_threshold\<close>, convergence against \<^verbatim>\<open>convergence_threshold\<close> together with the
  stability streak against \<^verbatim>\<open>stability_window\<close>, then the adaptive rule (\<^verbatim>\<open>enable_adaptive\<close>,
  at least five runs, convergence at least 0.8). (2) \<^verbatim>\<open>AdaptiveRunManager.should_continue\<close>
  always continues below its \<^verbatim>\<open>min_runs\<close>, and stops with reason "Maximum runs reached" when
  the run count has reached both \<^verbatim>\<open>min_runs\<close> and \<^verbatim>\<open>max_runs\<close>; by \<open>should_continue_ceiling\<close>
  that is whenever it has reached \<^verbatim>\<open>max_runs\<close>, for a manager with \<^verbatim>\<open>min_runs\<close> at most
  \<^verbatim>\<open>max_runs\<close>. (3) Over the history a, a, b, a, c the convergence score is 0.6 with dominant
  count 3.
\<close>

lemma early_stopping_floor_ceiling_order:
  "(\<exists>d self'. record_run self answer = Inr (d, self')
      \<and> current_run d = int (length (run_history self)) + 1
      \<and> (current_run d < EarlyStoppingConfig.min_runs (EarlyStopper.config self) \<longrightarrow> \<not> should_stop d)
      \<and> (should_stop d, reason d) =
          (if current_run d < EarlyStoppingConfig.min_runs (EarlyStopper.config self) then
             (False, Minimum_runs_not_reached (current_run d)
                       (EarlyStoppingConfig.min_runs (EarlyStopper.config self)))
           else if confidence_threshold (EarlyStopper.config self) \<le> fst (confidence_interval d) then
             (True, High_confidence_achieved (fst (confidence_interval d))
                      (confidence_threshold (EarlyStopper.config self)))
           else if convergence_threshold (EarlyStopper.config self) \<le> convergence_score d
                   \<and> stability_window (EarlyStopper.config self) \<le> stability_streak self' then
             (True, Stable_convergence (convergence_score d) (stability_streak self'))
           else if enable_adaptive (EarlyStopper.config self) \<and> 5 \<le> current_run d
                   \<and> 8 / 10 \<le> convergence_score d then
             (True, Adaptive_stop (convergence_score d) (current_run d))
           else (False, Continuing_runs)))
   \<and> (\<exists>c d m'. should_continue m answer planned = Inr (c, d, m')
      \<and> current_run d = int (length (run_history (stopper m))) + 1
      \<and> (current_run d < min_runs m \<longrightarrow> c)
      \<and> (min_runs m \<le> current_run d \<and> max_runs m \<le> current_run d \<longrightarrow>
           \<not> c \<and> should_stop d \<and> reason d = Maximum_runs_reached (max_runs m)))
   \<and> map_sum id (\<lambda>(ds, s). map (\<lambda>d. (convergence_score d, dominant_count d)) ds)
         (record_runs (EarlyStopper_init None) [''a'', ''a'', ''b'', ''a'', ''c''])
       = Inr [(1, 1), (1, 2), (2 / 3, 2), (3 / 4, 3), (6 / 10, 3)]"
proof -
  obtain d self' where r: "record_run self answer = Inr (d, self')"
      "current_run d = int (length (run_history self)) + 1"
      "(should_stop d, reason d) =
          (if current_run d < EarlyStoppingConfig.min_runs (EarlyStopper.config self) then
             (False, Minimum_runs_not_reached (current_run d)
                       (EarlyStoppingConfig.min_runs (EarlyStopper.config self)))
           else if confidence_threshold (EarlyStopper.config self) \<le> fst (confidence_interval d) then
             (True, High_confidence_achieved (fst (confidence_interval d))
                      (confidence_threshold (EarlyStopper.config self)))
           else if convergence_threshold (EarlyStopper.config self) \<le> convergence_score d
                   \<and> stability_window (EarlyStopper.config self) \<le> stability_streak self' then
             (True, Stable_convergence (convergence_score d) (stability_streak self'))
           else if enable_adaptive (EarlyStopper.config self) \<and> 5 \<le> current_run d
                   \<and> 8 / 10 \<le> convergence_score d then
             (True, Adaptive_stop (convergence_score d) (current_run d))
           else (False, Continuing_runs))"
    using record_run_order[of self answer] by blast
  have floor: "current_run d < EarlyStoppingConfig.min_runs (EarlyStopper.config self) \<longrightarrow> \<not> should_stop d"
    using r(3) by (auto split: if_splits)
  have a: "\<exists>d self'. record_run self answer = Inr (d, self')
      \<and> current_run d = int (length (run_history self)) + 1
      \<and> (current_run d < EarlyStoppingConfig.min_runs (EarlyStopper.config self) \<longrightarrow> \<not> should_stop d)
      \<and> (should_stop d, reason d) =
          (if current_run d < EarlyStoppingConfig.min_runs (EarlyStopper.config self) then
             (False, Minimum_runs_not_reached (current_run d)
                       (EarlyStoppingConfig.min_runs (EarlyStopper.config self)))
           else if confidence_threshold (EarlyStopper.config self) \<le> fst (confidence_interval d) then
             (True, High_confidence_achieved (fst (confidence_interval d))
                      (confidence_threshold (EarlyStopper.config self)))
           else if convergence_threshold (EarlyStopper.config self) \<le> convergence_score d
                   \<and> stability_window (EarlyStopper.config self) \<le> stability_streak self' then
             (True, Stable_convergence (convergence_score d) (stability_streak self'))
           else if enable_adaptive (EarlyStopper.config self) \<and> 5 \<le> current_run d
                   \<and> 8 / 10 \<le> convergence_score d then
             (True, Adaptive_stop (convergence_score d) (current_run d))
           else (False, Continuing_runs))"
    using r floor by blast
  show ?thesis
    using a should_continue_floor_ceiling[of m answer planned] five_runs by blast
qed

text \<open>
  The first run of a fresh stopper with the default configuration, and the tenth run of a
  manager with the defaults.
\<close>

lemma early_stopping_floor_ceiling_order_example:
  "(\<exists>d self'. record_run (EarlyStopper_init None) ''a'' = Inr (d, self')
      \<and> current_run d = 1 \<and> \<not> should_stop d
      \<and> reason d = Minimum_runs_not_reached 1 3)
   \<and> (\<exists>c d m'. should_continue manager_after_nine ''a'' 10 = Inr (c, d, m')
      \<and> current_run d = 10 \<and> \<not> c \<and> should_stop d \<and> reason d = Maximum_runs_reached 10)"
proof -
  have s: "int (length (run_history (EarlyStopper_init None))) + 1 = 1"
      "EarlyStoppingConfig.min_runs (EarlyStopper.config (EarlyStopper_init None)) = 3"
    by (simp_all add: EarlyStopper_init_def EarlyStoppingConfig_default_def)
  have m: "int (length (run_history (stopper manager_after_nine))) + 1 = 10"
      "min_runs manager_after_nine = 3" "max_runs manager_after_nine = 10"
    by (simp_all add: manager_after_nine_def AdaptiveRunManager_init_def)
  from early_stopping_floor_ceiling_order
         [of "EarlyStopper_init None" "''a''" manager_after_nine 10]
  show ?thesis
    unfolding s m by (elim conjE exE) (auto split: if_splits)
qed


section \<open>Validation of solver replies\<close>

lemma is_string_iff: "is_string v \<longleftrightarrow> (\<exists>s. v = JString s)"
  by (cases v) (simp_all add: is_string_def)

lemma all_strings_iff: "list_all is_string xs \<longleftrightarrow> (\<exists>ss. xs = map JString ss)"
  by (simp add: list_all_iff is_string_iff ex_map_conv)

lemma valid_number_iff:
  "valid_property (Number_schema lo hi) v \<longleftrightarrow> (\<exists>x. v = JNumber x \<and> lo \<le> x \<and> x \<le> hi)"
  by (cases v) simp_all

lemma valid_array_iff:
  "valid_property String_array_schema v \<longleftrightarrow> (\<exists>ss. v = JArray (map JString ss))"
  by (cases v) (simp_all add: all_strings_iff)

lemma props_keys: "set (map fst (properties SOLVER_SCHEMA)) = solver_keys"
  by (simp add: SOLVER_SCHEMA_def solver_keys_def)

lemma req_keys: "set (required SOLVER_SCHEMA) = solver_keys"
  by (simp add: SOLVER_SCHEMA_def solver_keys_def)

lemma addl: "\<not> additionalProperties SOLVER_SCHEMA"
  by (simp add: SOLVER_SCHEMA_def)

lemma validate_keys:
  "validate (JObject kvs) SOLVER_SCHEMA \<longleftrightarrow>
     set (map fst kvs) = solver_keys
     \<and> list_all (\<lambda>(k, v). case map_of (properties SOLVER_SCHEMA) k of
                                  None \<Rightarrow> True
                                | Some s \<Rightarrow> valid_property s v) kvs"
  unfolding validate_def using props_keys req_keys addl
  by (auto simp: list_all_iff)

lemma prop_check:
  "(case map_of (properties SOLVER_SCHEMA) k of None \<Rightarrow> True | Some s \<Rightarrow> valid_property s v)
   \<longleftrightarrow>
     (k \<in> {''model_id'', ''task_id'', ''final_answer''} \<longrightarrow> (\<exists>s. v = JString s))
     \<and> (k = ''confidence'' \<longrightarrow> (\<exists>x. v = JNumber x \<and> 0 \<le> x \<and> x \<le> 1))
     \<and> (k \<in> {''assumptions'', ''risks'', ''evidence'', ''self_checks''} \<longrightarrow>
          (\<exists>ss. v = JArray (map JString ss)))"
  by (simp add: SOLVER_SCHEMA_def valid_number_iff valid_array_iff is_string_iff
        del: valid_property.simps(2,3))

text \<open>
  Claim C9, amended. \<^verbatim>\<open>validate_solver_json\<close> accepts exactly the JSON objects whose keys
  are the eight required ones of \<^verbatim>\<open>SOLVER_SCHEMA\<close> (\<^verbatim>\<open>model_id\<close>, \<^verbatim>\<open>task_id\<close> and
  \<^verbatim>\<open>final_answer\<close> strings, \<^verbatim>\<open>confidence\<close> a number in [0,1], \<^verbatim>\<open>assumptions\<close>,
  \<^verbatim>\<open>risks\<close>, \<^verbatim>\<open>evidence\<close> and \<^verbatim>\<open>self_checks\<close> lists of strings): an object with a
  key missing, with an extra key or with a value of the wrong kind is rejected with
  \<^verbatim>\<open>ValueError\<close>.
\<close>

theorem validate_solver_json_accepts_exactly:
  "validate_solver_json obj = Inr () \<longleftrightarrow>
     (\<exists>kvs. obj = JObject kvs
        \<and> set (map fst kvs) =
            {''model_id'', ''task_id'', ''final_answer'', ''confidence'',
             ''assumptions'', ''risks'', ''evidence'', ''self_checks''}
        \<and> (\<forall>(k, v)\<in>set kvs.
             (k \<in> {''model_id'', ''task_id'', ''final_answer''} \<longrightarrow> (\<exists>s. v = JString s))
             \<and> (k = ''confidence'' \<longrightarrow> (\<exists>x. v = JNumber x \<and> 0 \<le> x \<and> x \<le> 1))
             \<and> (k \<in> {''assumptions'', ''risks'', ''evidence'', ''self_checks''} \<longrightarrow>
                  (\<exists>ss. v = JArray (map JString ss)))))"
proof (cases obj)
  case (JObject kvs)
  have "validate_solver_json (JObject kvs) = Inr () \<longleftrightarrow> validate (JObject kvs) SOLVER_SCHEMA"
    by (simp add: validate_solver_json_def)
  also have "\<dots> \<longleftrightarrow> set (map fst kvs) = solver_keys
     \<and> (\<forall>(k, v)\<in>set kvs.
             (k \<in> {''model_id'', ''task_id'', ''final_answer''} \<longrightarrow> (\<exists>s. v = JString s))
             \<and> (k = ''confidence'' \<longrightarrow> (\<exists>x. v = JNumber x \<and> 0 \<le> x \<and> x \<le> 1))
             \<and> (k \<in> {''assumptions'', ''risks'', ''evidence'', ''self_checks''} \<longrightarrow>
                  (\<exists>ss. v = JArray (map JString ss))))"
    unfolding validate_keys prop_check by (simp add: list_all_iff)
  finally show ?thesis using JObject by (simp add: solver_keys_def)
qed (simp_all add: validate_solver_json_def validate_def)

text \<open>The valid object of the tests is accepted.\<close>

theorem validate_solver_json_accepts_exactly_witness:
  "validate_solver_json valid_solver = Inr ()"
proof -
  have "\<exists>x::real. x * 20 = 17 \<and> 0 \<le> x \<and> x \<le> 1"
    by (rule exI[of _ "17 / 20"]) simp
  then show ?thesis
    using validate_solver_json_accepts_exactly[of valid_solver]
    by (simp add: valid_solver_def ex_map_conv)
qed

text \<open>
  Claim C9 as stated fails: the object of exactly the six fields the claim names, with
  valid values, is rejected (\<^verbatim>\<open>model_id\<close> and \<^verbatim>\<open>task_id\<close> are required too).
\<close>

theorem validate_six_fields_counterexample:
  "validate_solver_json six_field_solver = Inl ValueError"
  by (simp add: six_field_solver_def validate_solver_json_def validate_def SOLVER_SCHEMA_def)


section \<open>A validated reply always yields a candidate\<close>



section \<open>Rebuttal round\<close>

lemma make_solver_output_model_id:
  "make_solver_output m t l now parsed = Inr out \<Longrightarrow> SolverOutput.model_id out = m"
  by (auto simp: make_solver_output_def split: json.splits option.splits)

lemma rebuttal_step_model_id:
  "SolverOutput.model_id (case reply i others own of
                 Inl e \<Rightarrow> own
               | Inr parsed \<Rightarrow>
                   (case validate_solver_json parsed of
                      Inl e \<Rightarrow> own
                    | Inr u \<Rightarrow>
                        (case make_solver_output (SolverOutput.model_id own) t (SolverOutput.latency_ms own) now parsed of
                           Inl e \<Rightarrow> own
                         | Inr improved \<Rightarrow> improved))) = SolverOutput.model_id own"
  by (auto split: sum.splits dest: make_solver_output_model_id)

lemma rebuttal_length: "length (RebuttalRound_run reply now t outs) = length outs"
  by (simp add: RebuttalRound_run_def)

lemma rebuttal_model_ids:
  "map SolverOutput.model_id (RebuttalRound_run reply now t outs) = map SolverOutput.model_id outs"
  by (rule nth_equalityI)
     (simp_all add: RebuttalRound_run_def nth_enumerate_eq Let_def rebuttal_step_model_id)

lemma rebuttal_failure_keeps:
  assumes "i < length outs"
    and "case reply i (filter (\<lambda>other. SolverOutput.model_id other \<noteq> SolverOutput.model_id (outs ! i)) outs) (outs ! i) of
           Inl e \<Rightarrow> True
         | Inr parsed \<Rightarrow> validate_solver_json parsed \<noteq> Inr ()"
  shows "RebuttalRound_run reply now t outs ! i = outs ! i"
  using assms
  by (auto simp: RebuttalRound_run_def nth_enumerate_eq Let_def split: sum.splits)


text \<open>
  Claim C6. \<^verbatim>\<open>RebuttalRound.run\<close> returns one candidate per input candidate, at the same
  position and with the same \<^verbatim>\<open>SolverOutput.model_id\<close>; and for every worker whose call or parsing
  raises, or whose reply does not validate, the output entry is the worker's input
  candidate itself.
\<close>

theorem rebuttal_keeps_every_worker:
  "length (RebuttalRound_run reply now t outs) = length outs
   \<and> map SolverOutput.model_id (RebuttalRound_run reply now t outs) = map SolverOutput.model_id outs
   \<and> (\<forall>i<length outs.
        (case reply i (filter (\<lambda>other. SolverOutput.model_id other \<noteq> SolverOutput.model_id (outs ! i)) outs)
                (outs ! i) of
           Inl e \<Rightarrow> True
         | Inr parsed \<Rightarrow> validate_solver_json parsed \<noteq> Inr ())
        \<longrightarrow> RebuttalRound_run reply now t outs ! i = outs ! i)"
  using rebuttal_length rebuttal_model_ids rebuttal_failure_keeps by blast

text \<open>A round of two workers in which the call of the first one fails.\<close>

theorem rebuttal_keeps_every_worker_witness:
  "length (RebuttalRound_run rebuttal_reply_first_fails ''2024-01-02T00:00:00'' ''task_001''
             [candidate_a, candidate_b]) = 2
   \<and> map SolverOutput.model_id (RebuttalRound_run rebuttal_reply_first_fails ''2024-01-02T00:00:00''
                      ''task_001'' [candidate_a, candidate_b])
       = [''openai/gpt-4-turbo-preview'', ''anthropic/claude-3-opus'']
   \<and> RebuttalRound_run rebuttal_reply_first_fails ''2024-01-02T00:00:00'' ''task_001''
         [candidate_a, candidate_b] ! 0 = candidate_a"
proof -
  note t = rebuttal_keeps_every_worker
             [of rebuttal_reply_first_fails "''2024-01-02T00:00:00''" "''task_001''"
                 "[candidate_a, candidate_b]"]
  have h: "case rebuttal_reply_first_fails 0
                  (filter (\<lambda>other. SolverOutput.model_id other \<noteq> SolverOutput.model_id ([candidate_a, candidate_b] ! 0))
                     [candidate_a, candidate_b])
                  ([candidate_a, candidate_b] ! 0) of
             Inl e \<Rightarrow> True
           | Inr parsed \<Rightarrow> validate_solver_json parsed \<noteq> Inr ()"
    by (simp add: rebuttal_reply_first_fails_def)
  have "RebuttalRound_run rebuttal_reply_first_fails ''2024-01-02T00:00:00'' ''task_001''
         [candidate_a, candidate_b] ! 0 = [candidate_a, candidate_b] ! 0"
    using t h by (elim conjE allE[of _ 0]) simp
  then show ?thesis using t by (simp add: candidate_a_def candidate_b_def)
qed

lemma rebuttal_example:
  "RebuttalRound_run rebuttal_reply_first_fails ''2024-01-02T00:00:00'' ''task_001''
         [candidate_a, candidate_b] =
     [candidate_a,
      \<lparr>SolverOutput.model_id = ''anthropic/claude-3-opus'', SolverOutput.task_id = ''task_001'',
       SolverOutput.final_answer = ''Test answer'', SolverOutput.confidence = 85 / 100, assumptions = [''A1''],
       risks = [''R1''], evidence = [''E1''], self_checks = [''S1''], SolverOutput.latency_ms = 95,
       SolverOutput.timestamp = ''2024-01-02T00:00:00''\<rparr>]"
  by (simp add: RebuttalRound_run_def rebuttal_reply_first_fails_def enumerate_eq_zip
      validate_solver_json_def validate_def SOLVER_SCHEMA_def is_string_def
      make_solver_output_def valid_solver_def
      strings_of_def candidate_a_def candidate_b_def)

section \<open>Single runs of the orchestrator\<close>

lemma disagreement_nonempty:
  "candidates \<noteq> [] \<Longrightarrow>
   disagreement candidates =
     Inr (real (card (set (map SolverOutput.final_answer candidates))) / real (length candidates))"
  by (simp add: disagreement_def Let_def length_remdups_card_conv)

lemma disagreement_empty: "disagreement [] = Inl ZeroDivisionError"
  by (simp add: disagreement_def)

lemma disagreement_Inr_nonempty: "disagreement candidates = Inr rate \<Longrightarrow> candidates \<noteq> []"
  by (auto simp: disagreement_def)

lemma finish_run_calls: "calls (snd (finish_run w s t c a rn rate d)) = calls s"
  by (simp add: finish_run_def Let_def)

lemma consensus_check_calls:
  "calls (snd (consensus_check w s k eps cands arb)) =
     calls s @ (if 2 \<le> length (ranking arb)
                     \<and> fsub (score (ranking arb ! 0)) (score (ranking arb ! 1)) < eps
                then [Consensus_synthesize] else [])"
  by (simp add: consensus_check_def Let_def case_prod_beta split: sum.splits)

lemma run_single_without_rebuttal:
  assumes "SolverPool_run_parallel w t (solvers self) = Inr cands"
    and "disagreement cands = Inr rate"
    and "arbiter_rank w 1 cands = Inr arb"
    and "ranking arb \<noteq> []"
    and "\<not> (reb \<and> thr \<le> fl rate)"
  shows "run_single w self t k eps reb thr =
           (Inr (fst (finish_run w
                   (snd (consensus_check w
                      (self\<lparr>calls := calls self @ [Pool_run_parallel, Arbiter_rank]\<rparr>)
                      k eps cands arb))
                   t cands arb 1 rate
                   (fst (consensus_check w
                      (self\<lparr>calls := calls self @ [Pool_run_parallel, Arbiter_rank]\<rparr>)
                      k eps cands arb)))),
            snd (finish_run w
                   (snd (consensus_check w
                      (self\<lparr>calls := calls self @ [Pool_run_parallel, Arbiter_rank]\<rparr>)
                      k eps cands arb))
                   t cands arb 1 rate
                   (fst (consensus_check w
                      (self\<lparr>calls := calls self @ [Pool_run_parallel, Arbiter_rank]\<rparr>)
                      k eps cands arb))))"
  using assms unfolding run_single_def Let_def
  by (auto simp: case_prod_beta)

lemma run_single_with_rebuttal:
  assumes "SolverPool_run_parallel w t (solvers self) = Inr cands"
    and "disagreement cands = Inr rate"
    and "arbiter_rank w 1 cands = Inr arb"
    and "ranking arb \<noteq> []"
    and "reb \<and> thr \<le> fl rate"
    and "disagreement (RebuttalRound_run (rebuttal_reply w) (utcnow w) t cands) = Inr rate2"
    and "arbiter_rank w 2 (RebuttalRound_run (rebuttal_reply w) (utcnow w) t cands) = Inr arb2"
  shows "run_single w self t k eps reb thr =
           (Inr (fst (finish_run w
                   (snd (consensus_check w
                      (self\<lparr>calls := calls self @
                         [Pool_run_parallel, Arbiter_rank, Rebuttal_run, Arbiter_rank]\<rparr>)
                      k eps (RebuttalRound_run (rebuttal_reply w) (utcnow w) t cands) arb2))
                   t (RebuttalRound_run (rebuttal_reply w) (utcnow w) t cands) arb2 2 rate2
                   (fst (consensus_check w
                      (self\<lparr>calls := calls self @
                         [Pool_run_parallel, Arbiter_rank, Rebuttal_run, Arbiter_rank]\<rparr>)
                      k eps (RebuttalRound_run (rebuttal_reply w) (utcnow w) t cands) arb2)))),
            snd (finish_run w
                   (snd (consensus_check w
                      (self\<lparr>calls := calls self @
                         [Pool_run_parallel, Arbiter_rank, Rebuttal_run, Arbiter_rank]\<rparr>)
                      k eps (RebuttalRound_run (rebuttal_reply w) (utcnow w) t cands) arb2))
                   t (RebuttalRound_run (rebuttal_reply w) (utcnow w) t cands) arb2 2 rate2
                   (fst (consensus_check w
                      (self\<lparr>calls := calls self @
                         [Pool_run_parallel, Arbiter_rank, Rebuttal_run, Arbiter_rank]\<rparr>)
                      k eps (RebuttalRound_run (rebuttal_reply w) (utcnow w) t cands) arb2))))"
  using assms unfolding run_single_def Let_def
  by (auto simp: case_prod_beta)


lemma finish_run_result:
  "run_result.decision_mode (fst (finish_run w s t c a rn rate d)) = fst d
   \<and> run_result.used_candidates (fst (finish_run w s t c a rn rate d)) = fst (snd d)
   \<and> run_result.final_answer (fst (finish_run w s t c a rn rate d)) = snd (snd d)
   \<and> disagreement_rate (fst (finish_run w s t c a rn rate d)) = rate"
  by (simp add: finish_run_def Let_def)

lemma consensus_check_failure:
  assumes "2 \<le> length (ranking a) \<and> fsub (score (ranking a ! 0)) (score (ranking a ! 1)) < eps"
    and "ConsensusSynthesizer_synthesize w (fst (consensus_inputs k cands a))
           (snd (consensus_inputs k cands a)) = Inl e"
  shows "fst (consensus_check w s k eps cands a) =
           (''hard_select'', [selected_model_id a], ArbiterOutput.final_answer a)"
  using assms by (simp add: consensus_check_def Let_def case_prod_beta)

lemma consensus_check_all_fail:
  assumes "\<forall>cs n. \<exists>e. consensus_reply w cs n = Inl e"
  shows "fst (consensus_check w s k eps cands a) =
           (''hard_select'', [selected_model_id a], ArbiterOutput.final_answer a)"
proof -
  have "\<And>cs n x. ConsensusSynthesizer_synthesize w cs n \<noteq> Inr x"
  proof -
    fix cs n x
    obtain e where "consensus_reply w (py_take n cs) n = Inl e" using assms by blast
    then show "ConsensusSynthesizer_synthesize w cs n \<noteq> Inr x"
      by (simp add: ConsensusSynthesizer_synthesize_def)
  qed
  then show ?thesis
    unfolding consensus_check_def Let_def
    by (simp add: case_prod_beta split: sum.splits)
qed


text \<open>
  The gap is the rounded difference: for the scores \<^verbatim>\<open>0.085625\<close> and
  \<^verbatim>\<open>0.015625000000000003\<close> the exact difference is below the default epsilon \<^verbatim>\<open>0.07\<close>, the
  double difference is that epsilon, and the synthesizer is not invoked.
\<close>

lemma consensus_gap_is_rounded:
  assumes "ranking a = [r0, r1]"
    and "score r0 = 1542482872374395 / 18014398509481984"
    and "score r1 = 4503599627370497 / 288230376151711744"
  shows "score r0 - score r1 < fl (7 / 100)
       \<and> fsub (score r0) (score r1) = fl (7 / 100)
       \<and> consensus_check w s k (fl (7 / 100)) current a =
           ((''hard_select'', [selected_model_id a], ArbiterOutput.final_answer a), s)"
proof -
  have "fl (1542482872374395 / 18014398509481984 - 4503599627370497 / 288230376151711744)
          = of_int 5044031582654956 / 2 ^ 56"
    by (rule fl_eqI_nat) simp_all
  then have g: "fsub (score r0) (score r1) = fl (7 / 100)"
    unfolding assms(2,3) fsub_def double_0_07 by simp
  have e: "score r0 - score r1 < fl (7 / 100)"
    unfolding assms(2,3) double_0_07 by simp
  have "consensus_check w s k (fl (7 / 100)) current a =
          ((''hard_select'', [selected_model_id a], ArbiterOutput.final_answer a), s)"
    using g by (simp add: consensus_check_def Let_def assms(1))
  then show ?thesis using g e by simp
qed





text \<open>
  Claim C7. Take a single run whose first arbitration succeeds, and let \<open>current\<close> and \<open>a\<close>
  be the candidates and the arbiter output of its last round (the rebuttal round and the
  second arbitration if the run escalated, the first round otherwise). If the top-two gap
  of \<open>a\<close>, the double difference the source computes, is below epsilon and the call of
  \<^verbatim>\<open>synthesize\<close> on the top candidates fails, then
  the Consensus Synthesizer was invoked, \<^verbatim>\<open>run_single\<close> still returns a result (the
  exception does not reach the caller), and the result is the hard selection: decision
  mode \<^verbatim>\<open>hard_select\<close>, used candidates the arbiter's selected model alone, final answer
  the arbiter's final answer.
\<close>

theorem consensus_failure_falls_back:
  assumes "SolverPool_run_parallel w t (solvers self) = Inr cands"
    and "disagreement cands = Inr rate"
    and "arbiter_rank w 1 cands = Inr arb"
    and "ranking arb \<noteq> []"
    and "current = (if reb \<and> thr \<le> fl rate
                    then RebuttalRound_run (rebuttal_reply w) (utcnow w) t cands
                    else cands)"
    and "(if reb \<and> thr \<le> fl rate then arbiter_rank w 2 current else Inr arb) = Inr a"
    and "2 \<le> length (ranking a) \<and> fsub (score (ranking a ! 0)) (score (ranking a ! 1)) < eps"
    and "ConsensusSynthesizer_synthesize w (fst (consensus_inputs k current a))
           (snd (consensus_inputs k current a)) = Inl e"
  shows "Consensus_synthesize \<in> set (drop (length (calls self))
                                        (calls (snd (run_single w self t k eps reb thr))))
       \<and> (\<exists>r. fst (run_single w self t k eps reb thr) = Inr r
             \<and> run_result.decision_mode r = ''hard_select''
             \<and> run_result.used_candidates r = [selected_model_id a]
             \<and> run_result.final_answer r = ArbiterOutput.final_answer a)"
proof (cases "reb \<and> thr \<le> fl rate")
  case False
  have cur: "current = cands" and a: "a = arb"
    using assms(5,6) False by auto
  show ?thesis
    unfolding run_single_without_rebuttal[OF assms(1-4) False]
    using assms(7) consensus_check_failure[OF assms(7,8)]
    by (simp add: finish_run_result finish_run_calls consensus_check_calls cur a)
next
  case True
  have cur: "current = RebuttalRound_run (rebuttal_reply w) (utcnow w) t cands"
    using assms(5) True by simp
  have a2: "arbiter_rank w 2 (RebuttalRound_run (rebuttal_reply w) (utcnow w) t cands) = Inr a"
    using assms(6) True cur by simp
  have "RebuttalRound_run (rebuttal_reply w) (utcnow w) t cands \<noteq> []"
    using disagreement_Inr_nonempty[OF assms(2)]
      rebuttal_length[of "rebuttal_reply w" "utcnow w" t cands]
    by (metis length_0_conv)
  then obtain rate2 where
    r2: "disagreement (RebuttalRound_run (rebuttal_reply w) (utcnow w) t cands) = Inr rate2"
    using disagreement_nonempty by blast
  show ?thesis
    unfolding run_single_with_rebuttal[OF assms(1-4) True r2 a2]
    using assms(7) consensus_check_failure[OF assms(7,8)]
    by (simp add: finish_run_result finish_run_calls consensus_check_calls cur)
qed

lemma map_filter_all_fail:
  "\<forall>x\<in>set xs. f x = None \<Longrightarrow> List.map_filter f xs = []"
  by (induction xs) (simp_all add: List.map_filter_simps)

text \<open>
  Claim C10. When every worker call of the pool fails, \<^verbatim>\<open>run_parallel\<close> returns the empty
  list and \<^verbatim>\<open>run_single\<close> raises \<^verbatim>\<open>ZeroDivisionError\<close> at the disagreement rate.
\<close>

theorem empty_pool_division_by_zero:
  assumes "solvers self \<noteq> []"
    and "\<forall>spec\<in>set (solvers self). \<exists>e. call_solver w t spec = Inl e"
  shows "SolverPool_run_parallel w t (solvers self) = Inr []
         \<and> fst (run_single w self t k eps reb thr) = Inl ZeroDivisionError"
proof -
  have "\<forall>spec\<in>set (solvers self).
          (case call_solver w t spec of Inl e \<Rightarrow> None | Inr result \<Rightarrow> Some result) = None"
    using assms(2) by (auto split: sum.splits)
  then have p: "SolverPool_run_parallel w t (solvers self) = Inr []"
    using assms(1) by (simp add: SolverPool_run_parallel_def map_filter_all_fail)
  show ?thesis
    using p by (simp add: run_single_def Let_def disagreement_empty)
qed

lemma run_single_rate:
  assumes "run_single w self t k eps reb thr = (Inr r, self')"
  shows "\<exists>c1 cs. SolverPool_run_parallel w t (solvers self) = Inr c1
           \<and> (cs = c1 \<or> cs = RebuttalRound_run (rebuttal_reply w) (utcnow w) t c1)
           \<and> disagreement cs = Inr (disagreement_rate r)"
  using assms unfolding run_single_def Let_def
  by (auto simp: case_prod_beta finish_run_result split: sum.splits if_splits)

section \<open>An example run\<close>

lemma example_pool:
  "solvers self = roster_example \<Longrightarrow>
   SolverPool_run_parallel world_example ''task_001'' (solvers self) = Inr first_round_example"
  by (simp add: SolverPool_run_parallel_def roster_example_def world_example_def
      call_solver_def solver_json_def validate_solver_json_def validate_def SOLVER_SCHEMA_def
      is_string_def make_solver_output_def strings_of_def List.map_filter_simps
      first_round_example_def)

lemma example_disagreement: "disagreement first_round_example = Inr (2 / 3)"
  by (simp add: disagreement_def first_round_example_def)

lemma example_rebuttal:
  "RebuttalRound_run (rebuttal_reply world_example) (utcnow world_example) ''task_001''
     first_round_example = first_round_example"
  by (simp add: RebuttalRound_run_def world_example_def first_round_example_def
      enumerate_eq_zip)

lemma example_arbiter: "arbiter_rank world_example n cs = Inr arbiter_example"
  by (simp add: world_example_def)

lemma example_ranking: "ranking arbiter_example \<noteq> []"
  by (simp add: arbiter_example_def)

lemma example_consensus_fails: "\<forall>cs n. \<exists>e. consensus_reply world_example cs n = Inl e"
  by (simp add: world_example_def)

lemma example_gap:
  "2 \<le> length (ranking arbiter_example)
   \<and> fsub (score (ranking arbiter_example ! 0)) (score (ranking arbiter_example ! 1)) < 7 / 100"
  using double_gap_0_91_0_85 by (simp add: arbiter_example_def)

lemma example_run_with_rebuttal_calls:
  "calls (snd (run_single world_example orchestrator_example ''task_001'' 3 (7 / 100) True
                 (55 / 100)))
     = [Pool_run_parallel, Arbiter_rank, Rebuttal_run, Arbiter_rank, Consensus_synthesize]"
proof -
  have s: "solvers orchestrator_example = roster_example"
    by (simp add: orchestrator_example_def)
  have c: "True \<and> (55 / 100 :: real) \<le> fl (2 / 3)" by (simp add: double_two_thirds)
  have r2: "disagreement (RebuttalRound_run (rebuttal_reply world_example)
              (utcnow world_example) ''task_001'' first_round_example) = Inr (2 / 3)"
    by (simp only: example_rebuttal example_disagreement)
  show ?thesis
    unfolding run_single_with_rebuttal[OF example_pool[OF s] example_disagreement
        example_arbiter example_ranking c r2 example_arbiter]
    using example_gap
    by (simp add: finish_run_calls consensus_check_calls orchestrator_example_def)
qed











text \<open>The example run: consensus is invoked and fails.\<close>

theorem consensus_failure_falls_back_witness:
  "\<exists>r. fst (run_single world_example orchestrator_example ''task_001'' 3 (7 / 100) True
              (55 / 100)) = Inr r
       \<and> run_result.decision_mode r = ''hard_select''
       \<and> run_result.used_candidates r = [''openai/gpt-4-turbo-preview'']
       \<and> run_result.final_answer r = ''yes''"
proof -
  have s: "solvers orchestrator_example = roster_example"
    by (simp add: orchestrator_example_def)
  have cur: "first_round_example =
               (if True \<and> (55 / 100 :: real) \<le> fl (2 / 3)
                then RebuttalRound_run (rebuttal_reply world_example) (utcnow world_example)
                       ''task_001'' first_round_example
                else first_round_example)"
    by (simp only: example_rebuttal if_cancel)
  have a: "(if True \<and> (55 / 100 :: real) \<le> fl (2 / 3)
            then arbiter_rank world_example 2 first_round_example
            else Inr arbiter_example) = Inr arbiter_example"
    by (simp only: example_arbiter if_cancel)
  have f: "ConsensusSynthesizer_synthesize world_example
             (fst (consensus_inputs 3 first_round_example arbiter_example))
             (snd (consensus_inputs 3 first_round_example arbiter_example)) = Inl ProviderError"
    by (simp add: ConsensusSynthesizer_synthesize_def world_example_def)
  from consensus_failure_falls_back[OF example_pool[OF s] example_disagreement
         example_arbiter example_ranking cur a example_gap f]
  show ?thesis
    by (auto simp: arbiter_example_def)
qed

text \<open>The example roster with every solver call failing.\<close>

theorem empty_pool_division_by_zero_witness:
  "SolverPool_run_parallel world_all_fail ''task_001'' (solvers orchestrator_example) = Inr []
   \<and> fst (run_single world_all_fail orchestrator_example ''task_001'' 3 (7 / 100) True
            (55 / 100)) = Inl ZeroDivisionError"
proof -
  have a: "solvers orchestrator_example \<noteq> []"
    by (simp add: orchestrator_example_def roster_example_def)
  have b: "\<forall>spec\<in>set (solvers orchestrator_example).
             \<exists>e. call_solver world_all_fail ''task_001'' spec = Inl e"
    by (simp add: call_solver_def world_all_fail_def world_example_def)
  show ?thesis
    using empty_pool_division_by_zero[OF a b] by simp
qed

text \<open>
  Claim C3, amended. For every non-empty candidate set the disagreement rate is the number
  of distinct final answers divided by the number of candidates; it is \<open>1 / n\<close> (not 0)
  when all \<open>n\<close> final answers are identical, and 1 when they are pairwise distinct. The
  rate a successful run returns is this rate of the candidates of its last round.
\<close>

theorem disagreement_rate_formula:
  assumes "candidates \<noteq> []"
  shows "disagreement candidates =
           Inr (real (card (set (map SolverOutput.final_answer candidates)))
                  / real (length candidates))
       \<and> ((\<forall>c\<in>set candidates. SolverOutput.final_answer c = a) \<longrightarrow>
            disagreement candidates = Inr (1 / real (length candidates)))
       \<and> (distinct (map SolverOutput.final_answer candidates) \<longrightarrow>
            disagreement candidates = Inr 1)
       \<and> (\<forall>r self'. run_single w self t k eps reb thr = (Inr r, self') \<longrightarrow>
            (\<exists>c1 cs. SolverPool_run_parallel w t (solvers self) = Inr c1
               \<and> (cs = c1 \<or> cs = RebuttalRound_run (rebuttal_reply w) (utcnow w) t c1)
               \<and> cs \<noteq> []
               \<and> disagreement_rate r =
                   real (card (set (map SolverOutput.final_answer cs))) / real (length cs)))"
proof -
  have same: "(\<forall>c\<in>set candidates. SolverOutput.final_answer c = a) \<longrightarrow>
                card (set (map SolverOutput.final_answer candidates)) = 1"
  proof
    assume h: "\<forall>c\<in>set candidates. SolverOutput.final_answer c = a"
    have "set (map SolverOutput.final_answer candidates) = {a}"
      using h assms by (cases candidates) auto
    then show "card (set (map SolverOutput.final_answer candidates)) = 1" by simp
  qed
  have dist: "distinct (map SolverOutput.final_answer candidates) \<longrightarrow>
                card (set (map SolverOutput.final_answer candidates)) = length candidates"
    using distinct_card by fastforce
  have run: "\<forall>r self'. run_single w self t k eps reb thr = (Inr r, self') \<longrightarrow>
            (\<exists>c1 cs. SolverPool_run_parallel w t (solvers self) = Inr c1
               \<and> (cs = c1 \<or> cs = RebuttalRound_run (rebuttal_reply w) (utcnow w) t c1)
               \<and> cs \<noteq> []
               \<and> disagreement_rate r =
                   real (card (set (map SolverOutput.final_answer cs))) / real (length cs))"
  proof (intro allI impI)
    fix r self'
    assume "run_single w self t k eps reb thr = (Inr r, self')"
    then obtain c1 cs where
      p: "SolverPool_run_parallel w t (solvers self) = Inr c1"
         "cs = c1 \<or> cs = RebuttalRound_run (rebuttal_reply w) (utcnow w) t c1"
         "disagreement cs = Inr (disagreement_rate r)"
      using run_single_rate by blast
    have ne: "cs \<noteq> []" using disagreement_Inr_nonempty[OF p(3)] .
    have "disagreement_rate r =
            real (card (set (map SolverOutput.final_answer cs))) / real (length cs)"
      using p(3) disagreement_nonempty[OF ne] by simp
    then show "\<exists>c1 cs. SolverPool_run_parallel w t (solvers self) = Inr c1
               \<and> (cs = c1 \<or> cs = RebuttalRound_run (rebuttal_reply w) (utcnow w) t c1)
               \<and> cs \<noteq> []
               \<and> disagreement_rate r =
                   real (card (set (map SolverOutput.final_answer cs))) / real (length cs)"
      using p ne by blast
  qed
  show ?thesis
    using disagreement_nonempty[OF assms] same dist run assms by auto
qed

text \<open>
  The three example candidates (rate 2/3), the first two (identical answers, rate 1/2) and
  the last two (distinct answers, rate 1).
\<close>

theorem disagreement_rate_formula_witness:
  "disagreement first_round_example = Inr (2 / 3)
   \<and> disagreement (take 2 first_round_example) = Inr (1 / 2)
   \<and> disagreement (drop 1 first_round_example) = Inr 1"
proof -
  have a: "first_round_example \<noteq> []" "take 2 first_round_example \<noteq> []"
      "drop 1 first_round_example \<noteq> []"
    by (simp_all add: first_round_example_def)
  have c: "card (set (map SolverOutput.final_answer first_round_example)) = 2"
    by (simp add: first_round_example_def)
  have s: "\<forall>c\<in>set (take 2 first_round_example). SolverOutput.final_answer c = ''yes''"
    by (simp add: first_round_example_def)
  have d: "distinct (map SolverOutput.final_answer (drop 1 first_round_example))"
    by (simp add: first_round_example_def)
  have l: "length first_round_example = 3" by (simp add: first_round_example_def)
  note t1 = disagreement_rate_formula[OF a(1), of "''yes''" world_example orchestrator_example
              "''task_001''" 3 "7 / 100" True "55 / 100", THEN conjunct1]
  note t2 = disagreement_rate_formula[OF a(2), of "''yes''" world_example orchestrator_example
              "''task_001''" 3 "7 / 100" True "55 / 100", THEN conjunct2, THEN conjunct1]
  note t3 = disagreement_rate_formula[OF a(3), of "''yes''" world_example orchestrator_example
              "''task_001''" 3 "7 / 100" True "55 / 100", THEN conjunct2, THEN conjunct2,
              THEN conjunct1]
  have "disagreement first_round_example = Inr (2 / 3)" using t1 c l by simp
  moreover have "disagreement (take 2 first_round_example) = Inr (1 / 2)"
    using t2 s l by simp
  moreover have "disagreement (drop 1 first_round_example) = Inr 1"
    using t3 d by simp
  ultimately show ?thesis by simp
qed

text \<open>
  Claim C3 as stated fails: two candidates with the same final answer have disagreement
  rate 1/2, not 0.
\<close>

theorem identical_answers_counterexample:
  "SolverOutput.final_answer (first_round_example ! 0)
     = SolverOutput.final_answer (first_round_example ! 1)
   \<and> disagreement (take 2 first_round_example) = Inr (1 / 2)
   \<and> (1 / 2 :: real) \<noteq> 0"
  by (simp add: disagreement_def first_round_example_def)

section \<open>Repeated runs\<close>

lemma run_single_pool_calls:
  "count_list (calls (snd (run_single w self t k eps reb thr))) Pool_run_parallel
     = count_list (calls self) Pool_run_parallel + 1"
  unfolding run_single_def Let_def
  by (auto simp: case_prod_beta finish_run_calls consensus_check_calls split: sum.splits)

lemma run_loop_counts:
  "run_loop w_of self t k eps reb i n acc = (Inr results, self') \<Longrightarrow>
   length results = length acc + n
   \<and> count_list (calls self') Pool_run_parallel
       = count_list (calls self) Pool_run_parallel + n"
proof (induction n arbitrary: self i acc)
  case 0
  then show ?case by simp
next
  case (Suc n)
  obtain res s1 where r: "run_single (w_of i) self t k eps reb (fl (55 / 100)) = (res, s1)"
    by (cases "run_single (w_of i) self t k eps reb (fl (55 / 100))")
  have c: "count_list (calls s1) Pool_run_parallel
             = count_list (calls self) Pool_run_parallel + 1"
    using run_single_pool_calls[of "w_of i" self t k eps reb "fl (55 / 100)"] r by simp
  show ?case
  proof (cases res)
    case (Inl e)
    then show ?thesis using Suc.prems r by simp
  next
    case (Inr result)
    then have "run_loop w_of s1 t k eps reb (Suc i) n
                 (acc @ [\<lparr>run_outcome.decision_mode = run_result.decision_mode result,
                          run_outcome.used_candidates = run_result.used_candidates result,
                          run_outcome.final_answer = run_result.final_answer result\<rparr>])
               = (Inr results, self')"
      using Suc.prems r by simp
    from Suc.IH[OF this] show ?thesis using c by simp
  qed
qed

lemma analyze_total_runs:
  "analyze rs = Inr st \<Longrightarrow> rs \<noteq> [] \<Longrightarrow> total_runs st = Some (length rs)"
  by (auto simp: analyze_def Let_def split: option.splits sum.splits prod.splits)

lemma run_multi_success_counts:
  assumes "run_multi w_of self t rep k eps reb = (Inr final, self')"
  shows "0 < rep
       \<and> total_runs (stability final) = Some (nat rep)
       \<and> count_list (calls self') Pool_run_parallel
           = count_list (calls self) Pool_run_parallel + nat rep"
proof -
  obtain res s1 where l: "run_loop w_of self t k eps reb 0 (nat rep) [] = (res, s1)"
    by (cases "run_loop w_of self t k eps reb 0 (nat rep) []")
  obtain results where res: "res = Inr results"
    using assms l by (cases res) (simp_all add: run_multi_def)
  obtain st where st: "analyze results = Inr st"
    using assms l res by (cases "analyze results") (simp_all add: run_multi_def)
  have ne: "results \<noteq> []"
    using assms l res st by (auto simp: run_multi_def split: if_splits)
  have fin: "stability final = st" "self' = s1"
    using assms l res st ne by (auto simp: run_multi_def Let_def)
  have cnt: "length results = nat rep"
      "count_list (calls s1) Pool_run_parallel
         = count_list (calls self) Pool_run_parallel + nat rep"
    using run_loop_counts[OF l[unfolded res]] by simp_all
  have "0 < rep" using ne cnt(1) by (cases "0 < rep") simp_all
  then show ?thesis
    using analyze_total_runs[OF st ne] cnt fin by simp
qed

text \<open>
  Claim C1, amended. \<^verbatim>\<open>run_multi\<close> never consults the Early Stopper: whenever it returns
  a result, the requested repeat count is positive and exactly that many runs were
  executed (the pool was dispatched that many times, and the Stability Result counts that
  many runs), whatever the final answers of the runs are. A run that raises ends the loop
  with its exception.
\<close>

theorem run_multi_runs_every_repeat:
  assumes "run_multi w_of self t rep k eps reb = (Inr final, self')"
  shows "0 < rep
       \<and> total_runs (stability final) = Some (nat rep)
       \<and> count_list (calls self') Pool_run_parallel
           = count_list (calls self) Pool_run_parallel + nat rep"
  using run_multi_success_counts[OF assms] .

lemma finish_run_solvers: "solvers (snd (finish_run w s t c a rn rate d)) = solvers s"
  by (simp add: finish_run_def Let_def)

lemma consensus_check_solvers: "solvers (snd (consensus_check w s k eps cands arb)) = solvers s"
  by (simp add: consensus_check_def Let_def case_prod_beta split: sum.splits)

lemma example_run_single:
  assumes "solvers self = roster_example"
  shows "\<exists>r s'. run_single world_example self ''task_001'' 3 (7 / 100) True (fl (55 / 100))
                   = (Inr r, s')
           \<and> solvers s' = roster_example
           \<and> run_result.decision_mode r = ''hard_select''
           \<and> run_result.used_candidates r = [''openai/gpt-4-turbo-preview'']
           \<and> run_result.final_answer r = ''yes''"
proof -
  have c: "True \<and> fl (55 / 100) \<le> fl (2 / 3)"
    using double_0_55 double_two_thirds by simp
  have r2: "disagreement (RebuttalRound_run (rebuttal_reply world_example)
              (utcnow world_example) ''task_001'' first_round_example) = Inr (2 / 3)"
    by (simp only: example_rebuttal example_disagreement)
  show ?thesis
    unfolding run_single_with_rebuttal[OF example_pool[OF assms] example_disagreement
        example_arbiter example_ranking c r2 example_arbiter]
    using assms
    by (simp add: finish_run_result finish_run_solvers consensus_check_solvers
          consensus_check_all_fail[OF example_consensus_fails] arbiter_example_def)
qed

lemma example_run_loop:
  "solvers self = roster_example \<Longrightarrow>
   \<exists>s'. run_loop worlds_example self ''task_001'' 3 (7 / 100) True i n acc
          = (Inr (acc @ replicate n example_outcome), s')
        \<and> solvers s' = roster_example"
proof (induction n arbitrary: self i acc)
  case 0
  then show ?case by simp
next
  case (Suc n)
  obtain r s1 where r:
    "run_single world_example self ''task_001'' 3 (7 / 100) True (fl (55 / 100)) = (Inr r, s1)"
    "solvers s1 = roster_example"
    "run_result.decision_mode r = ''hard_select''"
    "run_result.used_candidates r = [''openai/gpt-4-turbo-preview'']"
    "run_result.final_answer r = ''yes''"
    using example_run_single[OF Suc.prems] by blast
  obtain s' where s':
    "run_loop worlds_example s1 ''task_001'' 3 (7 / 100) True (Suc i) n
       (acc @ [example_outcome])
       = (Inr ((acc @ [example_outcome]) @ replicate n example_outcome), s')"
    "solvers s' = roster_example"
    using Suc.IH[OF r(2)] by blast
  have w: "worlds_example i = world_example" by (simp add: worlds_example_def)
  have "run_loop worlds_example self ''task_001'' 3 (7 / 100) True i (Suc n) acc
          = run_loop worlds_example s1 ''task_001'' 3 (7 / 100) True (Suc i) n
              (acc @ [example_outcome])"
    using r by (simp add: w example_outcome_def)
  then show ?case
    using s' by (simp add: replicate_app_Cons_same)
qed

lemma example_run_multi:
  "\<exists>final s'. run_multi worlds_example orchestrator_example ''task_001'' 5 3 (7 / 100) True
                 = (Inr final, s')
        \<and> final_data.final_answer final = ''yes''"
proof -
  have s: "solvers orchestrator_example = roster_example"
    by (simp add: orchestrator_example_def)
  obtain s' where l:
    "run_loop worlds_example orchestrator_example ''task_001'' 3 (7 / 100) True 0 5 []
       = (Inr ([] @ replicate 5 example_outcome), s')"
    using example_run_loop[OF s, of 0 5 "[]"] by blast
  have ne: "replicate 5 example_outcome \<noteq> []" by simp
  have "\<forall>r\<in>set (replicate 5 example_outcome). run_outcome.decision_mode r = ''hard_select''"
    by (simp add: example_outcome_def)
  from analyze_all_same[OF ne this]
  obtain st where st: "analyze (replicate 5 example_outcome) = Inr st" by blast
  have n5: "nat 5 = (5::nat)" by simp
  have la: "last (replicate 5 example_outcome) = example_outcome" by simp
  show ?thesis
    unfolding run_multi_def n5 l
    using st la by (simp add: Let_def example_outcome_def)
qed

lemma stopper_five_same:
  "(case record_runs (EarlyStopper_init None) [''yes'', ''yes'', ''yes'', ''yes'', ''yes''] of
      Inl e \<Rightarrow> []
    | Inr (ds, s) \<Rightarrow> map should_stop ds) = [False, False, True, True, True]"
  by (simp add: record_run_def EarlyStopper_init_def EarlyStoppingConfig_default_def
      Counter_def get_answer_signature_def py_strip_def py_lower_char_def py_isspace_def
      wilson_ci_def math_sqrt_def stopping_conditions_def Let_def)

text \<open>Five requested runs of the example: five runs are executed.\<close>

theorem run_multi_runs_every_repeat_witness:
  "\<exists>final self'.
     run_multi worlds_example orchestrator_example ''task_001'' 5 3 (7 / 100) True
       = (Inr final, self')
     \<and> total_runs (stability final) = Some 5
     \<and> count_list (calls self') Pool_run_parallel = 5"
proof -
  obtain final s' where
    r: "run_multi worlds_example orchestrator_example ''task_001'' 5 3 (7 / 100) True
          = (Inr final, s')"
    using example_run_multi by blast
  have c: "count_list (calls orchestrator_example) Pool_run_parallel = 0"
    by (simp add: orchestrator_example_def)
  from run_multi_runs_every_repeat[OF r]
  have "total_runs (stability final) = Some 5"
       "count_list (calls s') Pool_run_parallel = 5"
    using c by simp_all
  then show ?thesis using r by blast
qed

text \<open>
  Claim C1 as stated fails. Five runs are requested and every run ends with the final
  answer \<^verbatim>\<open>yes\<close>. An Early Stopper with the default configuration, fed these answers,
  signals stop at the third run; \<^verbatim>\<open>run_multi\<close> executes all five.
\<close>

theorem run_multi_ignores_stopper_counterexample:
  "fst (run_loop worlds_example orchestrator_example ''task_001'' 3 (7 / 100) True 0 5 [])
     = Inr (replicate 5 example_outcome)
   \<and> (case run_multi worlds_example orchestrator_example ''task_001'' 5 3 (7 / 100) True of
        (Inl e, self') \<Rightarrow> False
      | (Inr final, self') \<Rightarrow>
          final_data.final_answer final = ''yes''
          \<and> total_runs (stability final) = Some 5
          \<and> count_list (calls self') Pool_run_parallel = 5)
   \<and> (case record_runs (EarlyStopper_init None)
              [''yes'', ''yes'', ''yes'', ''yes'', ''yes''] of
        Inl e \<Rightarrow> []
      | Inr (ds, s) \<Rightarrow> map should_stop ds) = [False, False, True, True, True]"
proof -
  have s: "solvers orchestrator_example = roster_example"
    by (simp add: orchestrator_example_def)
  obtain s1 where l:
    "run_loop worlds_example orchestrator_example ''task_001'' 3 (7 / 100) True 0 5 []
       = (Inr ([] @ replicate 5 example_outcome), s1)"
    using example_run_loop[OF s, of 0 5 "[]"] by blast
  obtain final s' where
    r: "run_multi worlds_example orchestrator_example ''task_001'' 5 3 (7 / 100) True
          = (Inr final, s')"
       "final_data.final_answer final = ''yes''"
    using example_run_multi by blast
  have c: "count_list (calls orchestrator_example) Pool_run_parallel = 0"
    by (simp add: orchestrator_example_def)
  have "total_runs (stability final) = Some 5"
       "count_list (calls s') Pool_run_parallel = 5"
    using run_multi_success_counts[OF r(1)] c by simp_all
  then show ?thesis
    using l r stopper_five_same by simp
qed

section \<open>The Wilson interval in exact arithmetic\<close>

text \<open>
  With real numbers in place of floating-point numbers, the two implementations of the
  Wilson interval agree at the default confidence, and for \<open>0 \<le> successes \<le> trials\<close>,
  \<open>trials > 0\<close> the interval lies in [0,1] and contains the observed rate. These are facts
  about the formulas; they say nothing about the rounding of the floating-point
  operations.
\<close>

lemma wilson_deviation_le_spread:
  fixes p n z :: real
  assumes "0 \<le> p" "p \<le> 1" "0 < n" "0 \<le> z"
  shows "\<bar>z\<^sup>2 / (2 * n) - p * (z\<^sup>2 / n)\<bar>
           \<le> z * sqrt ((p * (1 - p) + z\<^sup>2 / (4 * n)) / n)"
proof -
  let ?rad = "(p * (1 - p) + z\<^sup>2 / (4 * n)) / n"
  let ?x = "z\<^sup>2 / (2 * n) - p * (z\<^sup>2 / n)"
  have q: "0 \<le> p * (1 - p)" using assms by simp
  have rad: "0 \<le> ?rad" using q assms by simp
  have s0: "0 \<le> z * sqrt ?rad" using assms rad by simp
  have x: "?x = z\<^sup>2 * (1 - 2 * p) / (2 * n)"
    using assms by (simp add: field_simps)
  have "(z * sqrt ?rad)\<^sup>2 = z\<^sup>2 * ?rad"
    using rad by (simp add: power_mult_distrib)
  also have "\<dots> = z\<^sup>2 * (p * (1 - p)) / n + (z\<^sup>2)\<^sup>2 / (4 * n\<^sup>2)"
    using assms by (simp add: field_simps power2_eq_square)
  finally have s2: "(z * sqrt ?rad)\<^sup>2 = z\<^sup>2 * (p * (1 - p)) / n + (z\<^sup>2)\<^sup>2 / (4 * n\<^sup>2)" .
  have "?x\<^sup>2 = (z\<^sup>2)\<^sup>2 * (1 - 2 * p)\<^sup>2 / (4 * n\<^sup>2)"
    unfolding x by (simp add: power_divide power_mult_distrib)
  also have "\<dots> = (z\<^sup>2)\<^sup>2 / (4 * n\<^sup>2) - (z\<^sup>2)\<^sup>2 * (p * (1 - p)) / n\<^sup>2"
    using assms by (simp add: field_simps power2_eq_square)
  finally have x2: "?x\<^sup>2 = (z\<^sup>2)\<^sup>2 / (4 * n\<^sup>2) - (z\<^sup>2)\<^sup>2 * (p * (1 - p)) / n\<^sup>2" .
  have a: "0 \<le> z\<^sup>2 * (p * (1 - p)) / n" using q assms by simp
  have b: "0 \<le> (z\<^sup>2)\<^sup>2 * (p * (1 - p)) / n\<^sup>2" using q by simp
  have "?x\<^sup>2 \<le> (z * sqrt ?rad)\<^sup>2" unfolding x2 s2 using a b by linarith
  then have "\<bar>?x\<bar> \<le> \<bar>z * sqrt ?rad\<bar>" by (simp only: abs_le_square_iff)
  then show ?thesis using s0 by simp
qed

lemma wilson_contains:
  fixes p n z :: real
  assumes "0 \<le> p" "p \<le> 1" "0 < n" "0 \<le> z"
  shows "(p + z\<^sup>2 / (2 * n) - z * sqrt ((p * (1 - p) + z\<^sup>2 / (4 * n)) / n)) / (1 + z\<^sup>2 / n) \<le> p"
    and "p \<le> (p + z\<^sup>2 / (2 * n) + z * sqrt ((p * (1 - p) + z\<^sup>2 / (4 * n)) / n)) / (1 + z\<^sup>2 / n)"
proof -
  let ?s = "z * sqrt ((p * (1 - p) + z\<^sup>2 / (4 * n)) / n)"
  have d: "0 < 1 + z\<^sup>2 / n" using assms by (simp add: add_pos_nonneg)
  have pd: "p * (1 + z\<^sup>2 / n) = p + p * (z\<^sup>2 / n)" by (simp add: algebra_simps)
  note dev = wilson_deviation_le_spread[OF assms]
  have "p + z\<^sup>2 / (2 * n) - ?s \<le> p * (1 + z\<^sup>2 / n)"
    unfolding pd using dev by linarith
  then show "(p + z\<^sup>2 / (2 * n) - ?s) / (1 + z\<^sup>2 / n) \<le> p"
    using d by (simp add: pos_divide_le_eq)
  have "p * (1 + z\<^sup>2 / n) \<le> p + z\<^sup>2 / (2 * n) + ?s"
    unfolding pd using dev by linarith
  then show "p \<le> (p + z\<^sup>2 / (2 * n) + ?s) / (1 + z\<^sup>2 / n)"
    using d by (simp add: pos_le_divide_eq)
qed

lemma spread_over_denominator:
  fixes c d z s :: real
  shows "c / d - z * (s / d) = (c - z * s) / d" and "c / d + z * (s / d) = (c + z * s) / d"
  by (simp_all add: diff_divide_distrib add_divide_distrib)

lemma wilson_ci_eq_calculate: "wilson_ci successes trials (95 / 100) = calculate successes trials"
  unfolding wilson_ci_def calculate_def Let_def power2_eq_square spread_over_denominator
  by (simp only: refl if_True)

lemma calculate_real_interval:
  assumes "0 \<le> successes" "successes \<le> trials" "0 < trials"
  shows "\<exists>lower upper. calculate successes trials = Inr (lower, upper)
           \<and> 0 \<le> lower \<and> lower \<le> real_of_int successes / real_of_int trials
           \<and> real_of_int successes / real_of_int trials \<le> upper \<and> upper \<le> 1"
proof -
  let ?n = "real_of_int trials"
  let ?p = "real_of_int successes / ?n"
  let ?z = "196 / 100 :: real"
  let ?rad = "(?p * (1 - ?p) + ?z\<^sup>2 / (4 * ?n)) / ?n"
  let ?d = "1 + ?z\<^sup>2 / ?n"
  have n: "0 < ?n" using assms by simp
  have p0: "0 \<le> ?p" using assms n by simp
  have p1: "?p \<le> 1" using assms n by simp
  have z: "0 \<le> ?z" by simp
  have rad: "\<not> ?rad < 0"
    using wilson_radicand_nonneg[OF p0 p1 n, of ?z] by (simp add: power2_eq_square)
  have d: "0 < ?d" using n by (simp add: add_pos_nonneg)
  have lo: "(?p + ?z\<^sup>2 / (2 * ?n)) / ?d - ?z * (sqrt ?rad / ?d)
              = (?p + ?z\<^sup>2 / (2 * ?n) - ?z * sqrt ?rad) / ?d"
    by (simp add: diff_divide_distrib)
  have hi: "(?p + ?z\<^sup>2 / (2 * ?n)) / ?d + ?z * (sqrt ?rad / ?d)
              = (?p + ?z\<^sup>2 / (2 * ?n) + ?z * sqrt ?rad) / ?d"
    by (simp add: add_divide_distrib)
  have c: "calculate successes trials =
             Inr (max 0 ((?p + ?z\<^sup>2 / (2 * ?n) - ?z * sqrt ?rad) / ?d),
                  min 1 ((?p + ?z\<^sup>2 / (2 * ?n) + ?z * sqrt ?rad) / ?d))"
    unfolding calculate_def Let_def math_sqrt_def
    using assms(3) rad by (simp only: lo hi if_False sum.case) simp
  show ?thesis
    unfolding c using wilson_contains[OF p0 p1 n z] p0 p1 by (simp add: max_def min_def)
qed

section \<open>The Wilson interval in double arithmetic\<close>

text \<open>
  The evaluation of \<open>wilson_ci_double\<close> at two inputs, one rounded operation after the
  other. Every double is written as the fraction it is.
\<close>

lemma wilson_0_11_z:
  "fl (49 / 25) = 2206763817411543 / 1125899906842624"
proof -
  have "fl (49 / 25) = of_int 8827055269646172 / 2 ^ 52"
    by (rule fl_eqI_nat) simp_all
  then show ?thesis
    by (simp)
qed

lemma wilson_0_11_zz:
  "fmul (2206763817411543 / 1125899906842624) (2206763817411543 / 1125899906842624) = 135164283816457 / 35184372088832"
proof -
  have "fl ((2206763817411543 / 1125899906842624) * (2206763817411543 / 1125899906842624)) = of_int 8650514164253248 / 2 ^ 51"
    by (rule fl_eqI_nat) simp_all
  then show ?thesis
    by (simp add: fmul_def)
qed

lemma wilson_0_11_n1:
  "double_of_int 11 = 11"
proof -
  have "fl (of_int 11) = of_int 6192449487634432 / 2 ^ 49"
    by (rule fl_eqI_nat) simp_all
  then show ?thesis
    by (simp add: double_of_int_def)
qed

lemma wilson_0_11_q1:
  "fdiv (135164283816457 / 35184372088832) 11 = 6291283028547817 / 18014398509481984"
proof -
  have "fl ((135164283816457 / 35184372088832) / 11) = of_int 6291283028547817 / 2 ^ 54"
    by (rule fl_eqI_nat) simp_all
  then show ?thesis
    by (simp add: fdiv_def)
qed

lemma wilson_0_11_den:
  "fadd 1 (6291283028547817 / 18014398509481984) = 3038210192253725 / 2251799813685248"
proof -
  have "fl (1 + (6291283028547817 / 18014398509481984)) = of_int 6076420384507450 / 2 ^ 52"
    by (rule fl_eqI_nat) simp_all
  then show ?thesis
    by (simp add: fadd_def)
qed

lemma wilson_0_11_n2:
  "double_of_int 22 = 22"
proof -
  have "fl (of_int 22) = of_int 6192449487634432 / 2 ^ 48"
    by (rule fl_eqI_nat) simp_all
  then show ?thesis
    by (simp add: double_of_int_def)
qed

lemma wilson_0_11_q2:
  "fdiv (135164283816457 / 35184372088832) 22 = 6291283028547817 / 36028797018963968"
proof -
  have "fl ((135164283816457 / 35184372088832) / 22) = of_int 6291283028547817 / 2 ^ 55"
    by (rule fl_eqI_nat) simp_all
  then show ?thesis
    by (simp add: fdiv_def)
qed

lemma wilson_0_11_cen:
  "fadd 0 (6291283028547817 / 36028797018963968) = 6291283028547817 / 36028797018963968"
proof -
  have "fl (0 + (6291283028547817 / 36028797018963968)) = of_int 6291283028547817 / 2 ^ 55"
    by (rule fl_eqI_nat) simp_all
  then show ?thesis
    by (simp add: fadd_def)
qed

lemma wilson_0_11_om:
  "fsub 1 0 = 1"
proof -
  have "fl (1 - 0) = of_int 4503599627370496 / 2 ^ 52"
    by (rule fl_eqI_nat) simp_all
  then show ?thesis
    by (simp add: fsub_def)
qed

lemma wilson_0_11_n4:
  "double_of_int 44 = 44"
proof -
  have "fl (of_int 44) = of_int 6192449487634432 / 2 ^ 47"
    by (rule fl_eqI_nat) simp_all
  then show ?thesis
    by (simp add: double_of_int_def)
qed

lemma wilson_0_11_q4:
  "fdiv (135164283816457 / 35184372088832) 44 = 6291283028547817 / 72057594037927936"
proof -
  have "fl ((135164283816457 / 35184372088832) / 44) = of_int 6291283028547817 / 2 ^ 56"
    by (rule fl_eqI_nat) simp_all
  then show ?thesis
    by (simp add: fdiv_def)
qed

lemma wilson_0_11_r1:
  "fadd 0 (6291283028547817 / 72057594037927936) = 6291283028547817 / 72057594037927936"
proof -
  have "fl (0 + (6291283028547817 / 72057594037927936)) = of_int 6291283028547817 / 2 ^ 56"
    by (rule fl_eqI_nat) simp_all
  then show ?thesis
    by (simp add: fadd_def)
qed

lemma wilson_0_11_r2:
  "fdiv (6291283028547817 / 72057594037927936) 11 = 2287739283108297 / 288230376151711744"
proof -
  have "fl ((6291283028547817 / 72057594037927936) / 11) = of_int 4575478566216594 / 2 ^ 59"
    by (rule fl_eqI_nat) simp_all
  then show ?thesis
    by (simp add: fdiv_def)
qed

lemma wilson_0_11_sq:
  "math_sqrt_double (2287739283108297 / 288230376151711744) = Inr (3209838279871335 / 36028797018963968)"
proof -
  have l: "12839353119485339 / 144115188075855872 < sqrt (2287739283108297 / 288230376151711744)"
    by (rule real_less_rsqrt) (simp add: power2_eq_square)
  have u: "sqrt (2287739283108297 / 288230376151711744) < 12839353119485341 / 144115188075855872"
    by (rule real_less_lsqrt) (simp_all add: power2_eq_square)
  have "fl (sqrt (2287739283108297 / 288230376151711744)) = of_int 6419676559742670 / 2 ^ 56"
    by (rule fl_betweenI) (use l u in simp_all)
  then show ?thesis
    by (simp add: math_sqrt_double_def)
qed

lemma wilson_0_11_sp:
  "fmul (2206763817411543 / 1125899906842624) (3209838279871335 / 36028797018963968) = 786410378568477 / 4503599627370496"
proof -
  have "fl ((2206763817411543 / 1125899906842624) * (3209838279871335 / 36028797018963968)) = of_int 6291283028547816 / 2 ^ 55"
    by (rule fl_eqI_nat) simp_all
  then show ?thesis
    by (simp add: fmul_def)
qed

lemma wilson_0_11_l0:
  "fsub (6291283028547817 / 36028797018963968) (786410378568477 / 4503599627370496) = 1 / 36028797018963968"
proof -
  have "fl ((6291283028547817 / 36028797018963968) - (786410378568477 / 4503599627370496)) = of_int 4503599627370496 / 2 ^ 107"
    by (rule fl_eqI_nat) simp_all
  then show ?thesis
    by (simp add: fsub_def)
qed

lemma wilson_0_11_lo:
  "fdiv (1 / 36028797018963968) (3038210192253725 / 2251799813685248) = 834471955535041 / 40564819207303340847894502572032"
proof -
  have "fl ((1 / 36028797018963968) / (3038210192253725 / 2251799813685248)) = of_int 6675775644280328 / 2 ^ 108"
    by (rule fl_eqI_nat) simp_all
  then show ?thesis
    by (simp add: fdiv_def)
qed

lemma wilson_0_11_h0:
  "fadd (6291283028547817 / 36028797018963968) (786410378568477 / 4503599627370496) = 786410378568477 / 2251799813685248"
proof -
  have "fl ((6291283028547817 / 36028797018963968) + (786410378568477 / 4503599627370496)) = of_int (if even (6291283028547816 :: int) then 6291283028547816 else 6291283028547816 + 1) / 2 ^ 54"
    by (rule fl_tieI_nat) simp_all
  then show ?thesis
    by (simp add: fadd_def)
qed

lemma wilson_0_11_hi:
  "fdiv (786410378568477 / 2251799813685248) (3038210192253725 / 2251799813685248) = 291427951307583 / 1125899906842624"
proof -
  have "fl ((786410378568477 / 2251799813685248) / (3038210192253725 / 2251799813685248)) = of_int 4662847220921328 / 2 ^ 54"
    by (rule fl_eqI_nat) simp_all
  then show ?thesis
    by (simp add: fdiv_def)
qed

lemma wilson_0_11:
  "wilson_ci_double 0 11 (fl (95 / 100)) =
     Inr (834471955535041 / 40564819207303340847894502572032,
          291427951307583 / 1125899906842624)"
  by (simp add: wilson_ci_double_def Let_def fl_zero fmul_zero fmul_zero_right
      wilson_0_11_z
      wilson_0_11_zz
      wilson_0_11_n1
      wilson_0_11_q1
      wilson_0_11_den
      wilson_0_11_n2
      wilson_0_11_q2
      wilson_0_11_cen
      wilson_0_11_om
      wilson_0_11_n4
      wilson_0_11_q4
      wilson_0_11_r1
      wilson_0_11_r2
      wilson_0_11_sq
      wilson_0_11_sp
      wilson_0_11_l0
      wilson_0_11_lo
      wilson_0_11_h0
      wilson_0_11_hi)

lemma wilson_12_12_z:
  "fl (49 / 25) = 2206763817411543 / 1125899906842624"
proof -
  have "fl (49 / 25) = of_int 8827055269646172 / 2 ^ 52"
    by (rule fl_eqI_nat) simp_all
  then show ?thesis
    by (simp)
qed

lemma wilson_12_12_p:
  "fl 1 = 1"
proof -
  have "fl (1) = of_int 4503599627370496 / 2 ^ 52"
    by (rule fl_eqI_nat) simp_all
  then show ?thesis
    by (simp)
qed

lemma wilson_12_12_zz:
  "fmul (2206763817411543 / 1125899906842624) (2206763817411543 / 1125899906842624) = 135164283816457 / 35184372088832"
proof -
  have "fl ((2206763817411543 / 1125899906842624) * (2206763817411543 / 1125899906842624)) = of_int 8650514164253248 / 2 ^ 51"
    by (rule fl_eqI_nat) simp_all
  then show ?thesis
    by (simp add: fmul_def)
qed

lemma wilson_12_12_n1:
  "double_of_int 12 = 12"
proof -
  have "fl (of_int 12) = of_int 6755399441055744 / 2 ^ 49"
    by (rule fl_eqI_nat) simp_all
  then show ?thesis
    by (simp add: double_of_int_def)
qed

lemma wilson_12_12_q1:
  "fdiv (135164283816457 / 35184372088832) 12 = 5767009442835499 / 18014398509481984"
proof -
  have "fl ((135164283816457 / 35184372088832) / 12) = of_int 5767009442835499 / 2 ^ 54"
    by (rule fl_eqI_nat) simp_all
  then show ?thesis
    by (simp add: fdiv_def)
qed

lemma wilson_12_12_den:
  "fadd 1 (5767009442835499 / 18014398509481984) = 5945351988079371 / 4503599627370496"
proof -
  have "fl (1 + (5767009442835499 / 18014398509481984)) = of_int 5945351988079371 / 2 ^ 52"
    by (rule fl_eqI_nat) simp_all
  then show ?thesis
    by (simp add: fadd_def)
qed

lemma wilson_12_12_n2:
  "double_of_int 24 = 24"
proof -
  have "fl (of_int 24) = of_int 6755399441055744 / 2 ^ 48"
    by (rule fl_eqI_nat) simp_all
  then show ?thesis
    by (simp add: double_of_int_def)
qed

lemma wilson_12_12_q2:
  "fdiv (135164283816457 / 35184372088832) 24 = 5767009442835499 / 36028797018963968"
proof -
  have "fl ((135164283816457 / 35184372088832) / 24) = of_int 5767009442835499 / 2 ^ 55"
    by (rule fl_eqI_nat) simp_all
  then show ?thesis
    by (simp add: fdiv_def)
qed

lemma wilson_12_12_cen:
  "fadd 1 (5767009442835499 / 36028797018963968) = 5224475807724933 / 4503599627370496"
proof -
  have "fl (1 + (5767009442835499 / 36028797018963968)) = of_int 5224475807724933 / 2 ^ 52"
    by (rule fl_eqI_nat) simp_all
  then show ?thesis
    by (simp add: fadd_def)
qed

lemma wilson_12_12_om:
  "fsub 1 1 = 0"
  by (simp add: fsub_def fl_zero)

lemma wilson_12_12_n4:
  "double_of_int 48 = 48"
proof -
  have "fl (of_int 48) = of_int 6755399441055744 / 2 ^ 47"
    by (rule fl_eqI_nat) simp_all
  then show ?thesis
    by (simp add: double_of_int_def)
qed

lemma wilson_12_12_q4:
  "fdiv (135164283816457 / 35184372088832) 48 = 5767009442835499 / 72057594037927936"
proof -
  have "fl ((135164283816457 / 35184372088832) / 48) = of_int 5767009442835499 / 2 ^ 56"
    by (rule fl_eqI_nat) simp_all
  then show ?thesis
    by (simp add: fdiv_def)
qed

lemma wilson_12_12_r1:
  "fadd 0 (5767009442835499 / 72057594037927936) = 5767009442835499 / 72057594037927936"
proof -
  have "fl (0 + (5767009442835499 / 72057594037927936)) = of_int 5767009442835499 / 2 ^ 56"
    by (rule fl_eqI_nat) simp_all
  then show ?thesis
    by (simp add: fadd_def)
qed

lemma wilson_12_12_r2:
  "fdiv (5767009442835499 / 72057594037927936) 12 = 7689345923780665 / 1152921504606846976"
proof -
  have "fl ((5767009442835499 / 72057594037927936) / 12) = of_int 7689345923780665 / 2 ^ 60"
    by (rule fl_eqI_nat) simp_all
  then show ?thesis
    by (simp add: fdiv_def)
qed

lemma wilson_12_12_sq:
  "math_sqrt_double (7689345923780665 / 1152921504606846976) = Inr (735587939137181 / 9007199254740992)"
proof -
  have l: "11769407026194895 / 144115188075855872 < sqrt (7689345923780665 / 1152921504606846976)"
    by (rule real_less_rsqrt) (simp add: power2_eq_square)
  have u: "sqrt (7689345923780665 / 1152921504606846976) < 11769407026194897 / 144115188075855872"
    by (rule real_less_lsqrt) (simp_all add: power2_eq_square)
  have "fl (sqrt (7689345923780665 / 1152921504606846976)) = of_int 5884703513097448 / 2 ^ 56"
    by (rule fl_betweenI) (use l u in simp_all)
  then show ?thesis
    by (simp add: math_sqrt_double_def)
qed

lemma wilson_12_12_sp:
  "fmul (2206763817411543 / 1125899906842624) (735587939137181 / 9007199254740992) = 5767009442835499 / 36028797018963968"
proof -
  have "fl ((2206763817411543 / 1125899906842624) * (735587939137181 / 9007199254740992)) = of_int 5767009442835499 / 2 ^ 55"
    by (rule fl_eqI_nat) simp_all
  then show ?thesis
    by (simp add: fmul_def)
qed

lemma wilson_12_12_l0:
  "fsub (5224475807724933 / 4503599627370496) (5767009442835499 / 36028797018963968) = 9007199254740991 / 9007199254740992"
proof -
  have "fl ((5224475807724933 / 4503599627370496) - (5767009442835499 / 36028797018963968)) = of_int 9007199254740991 / 2 ^ 53"
    by (rule fl_eqI_nat) simp_all
  then show ?thesis
    by (simp add: fsub_def)
qed

lemma wilson_12_12_lo:
  "fdiv (9007199254740991 / 9007199254740992) (5945351988079371 / 4503599627370496) = 852868326564961 / 1125899906842624"
proof -
  have "fl ((9007199254740991 / 9007199254740992) / (5945351988079371 / 4503599627370496)) = of_int 6822946612519688 / 2 ^ 53"
    by (rule fl_eqI_nat) simp_all
  then show ?thesis
    by (simp add: fdiv_def)
qed

lemma wilson_12_12_h0:
  "fadd (5224475807724933 / 4503599627370496) (5767009442835499 / 36028797018963968) = 2972675994039685 / 2251799813685248"
proof -
  have "fl ((5224475807724933 / 4503599627370496) + (5767009442835499 / 36028797018963968)) = of_int 5945351988079370 / 2 ^ 52"
    by (rule fl_eqI_nat) simp_all
  then show ?thesis
    by (simp add: fadd_def)
qed

lemma wilson_12_12_hi:
  "fdiv (2972675994039685 / 2251799813685248) (5945351988079371 / 4503599627370496) = 4503599627370495 / 4503599627370496"
proof -
  have "fl ((2972675994039685 / 2251799813685248) / (5945351988079371 / 4503599627370496)) = of_int 9007199254740990 / 2 ^ 53"
    by (rule fl_eqI_nat) simp_all
  then show ?thesis
    by (simp add: fdiv_def)
qed

lemma wilson_12_12:
  "wilson_ci_double 12 12 (fl (95 / 100)) =
     Inr (852868326564961 / 1125899906842624,
          4503599627370495 / 4503599627370496)"
  by (simp add: wilson_ci_double_def Let_def fl_zero fmul_zero fmul_zero_right
      wilson_12_12_z
      wilson_12_12_p
      wilson_12_12_zz
      wilson_12_12_n1
      wilson_12_12_q1
      wilson_12_12_den
      wilson_12_12_n2
      wilson_12_12_q2
      wilson_12_12_cen
      wilson_12_12_om
      wilson_12_12_n4
      wilson_12_12_q4
      wilson_12_12_r1
      wilson_12_12_r2
      wilson_12_12_sq
      wilson_12_12_sp
      wilson_12_12_l0
      wilson_12_12_lo
      wilson_12_12_h0
      wilson_12_12_hi)

text \<open>
  Claim C5 does not hold of the code. With the operations rounded as Python rounds them,
  \<^verbatim>\<open>_wilson_ci(0, 11)\<close> returns the lower bound \<^verbatim>\<open>2.057132194452876e-17\<close>, which is above the
  observed rate 0/11, and \<^verbatim>\<open>_wilson_ci(12, 12)\<close> returns the upper bound
  \<^verbatim>\<open>0.9999999999999998\<close>, which is below the observed rate 12/12. In exact arithmetic the
  interval contains the observed rate (\<open>calculate_real_interval\<close>), and the tests of the
  repository expect the bounds 0.0 and 1.0 at zero and at all successes.
\<close>

theorem wilson_ci_double_misses_rate:
  "wilson_ci_double 0 11 (fl (95 / 100)) =
     Inr (834471955535041 / 40564819207303340847894502572032,
          291427951307583 / 1125899906842624)
   \<and> real_of_int 0 / real_of_int 11 < 834471955535041 / 40564819207303340847894502572032
   \<and> wilson_ci_double 12 12 (fl (95 / 100)) =
     Inr (852868326564961 / 1125899906842624,
          4503599627370495 / 4503599627370496)
   \<and> 4503599627370495 / 4503599627370496 < real_of_int 12 / real_of_int 12"
  using wilson_0_11 wilson_12_12 by simp
end
